theory Spec2Isabelle
  imports Main "HOL-Library.Word"
begin

section \<open>Exceptions of the standard library\<close>

text \<open>
  The program is C++ (\<^verbatim>\<open>src/Main.cpp\<close>). The library calls it makes can throw:
  \<^verbatim>\<open>std::string::erase(pos)\<close> throws \<^verbatim>\<open>std::out_of_range\<close> when \<open>pos\<close> is beyond the
  size, and the fill constructor \<^verbatim>\<open>std::string(count, ch)\<close> throws
  \<^verbatim>\<open>std::length_error\<close> when \<open>count\<close> exceeds \<^verbatim>\<open>max_size()\<close>. The program catches
  nothing, so a throw ends the call; it is the \<open>Inl\<close> branch of a result.
\<close>

datatype exn = out_of_range | length_error

section \<open>Model: the roster and its two files\<close>

text \<open>
  \<^verbatim>\<open>class Model\<close> holds two vectors of strings. A \<^verbatim>\<open>std::string\<close> is a sequence of
  bytes: \<open>string\<close> (a list of 8-bit \<open>char\<close>).
\<close>

record Model =
  classes :: "string list"
  students :: "string list"

text \<open>
  The files the model reads and writes. \<open>files d p = None\<close> stands for a stream on path
  \<open>p\<close> that does not open for reading (\<^verbatim>\<open>is_open()\<close> is false: the file is missing or
  unreadable); \<open>writable d p\<close> tells whether \<^verbatim>\<open>std::ofstream(p, std::ios::trunc)\<close>
  opens. The source never tests the output stream: on a stream that did not open, every
  \<^verbatim>\<open><<\<close> is a no-op and the file keeps its content.
\<close>

record disk =
  files :: "string \<Rightarrow> string option"
  writable :: "string \<Rightarrow> bool"

definition newline :: char where
  "newline = CHR 0x0A"

definition whitespace :: string where
  \<comment> \<open>\<^verbatim>\<open>" \t\n\r\f\v"\<close>\<close>
  "whitespace = [CHR 0x20, CHR 0x09, CHR 0x0A, CHR 0x0D, CHR 0x0C, CHR 0x0B]"

subsection \<open>\<^verbatim>\<open>std::find\<close> and \<^verbatim>\<open>Model::Exists\<close>\<close>

text \<open>
  \<^verbatim>\<open>std::find(first, last, val)\<close> returns the position of the first element equal to
  \<open>val\<close>, or \<open>last\<close> (here the length of the vector) when there is none.
  \<^verbatim>\<open>std::string\<close>'s \<^verbatim>\<open>==\<close> compares the bytes: the match is exact and case-sensitive.
\<close>

fun std_find :: "'a list \<Rightarrow> 'a \<Rightarrow> nat" where
  "std_find [] val = 0"
| "std_find (x # xs) val = (if x = val then 0 else Suc (std_find xs val))"

definition Exists :: "string list \<Rightarrow> string \<Rightarrow> bool" where
  "Exists vec val = (std_find vec val \<noteq> length vec)"

subsection \<open>\<^verbatim>\<open>Model::Trim\<close>\<close>

text \<open>
  \<^verbatim>\<open>find_first_not_of\<close> and \<^verbatim>\<open>find_last_not_of\<close> return a position, or \<^verbatim>\<open>npos\<close> (the
  largest \<^verbatim>\<open>size_t\<close>) when every character is in the set; \<open>None\<close> stands for \<^verbatim>\<open>npos\<close>.
\<close>

fun find_first_not_of :: "string \<Rightarrow> string \<Rightarrow> nat option" where
  "find_first_not_of [] chars = None"
| "find_first_not_of (c # s) chars =
     (if c \<notin> set chars then Some 0
      else (case find_first_not_of s chars of None \<Rightarrow> None | Some i \<Rightarrow> Some (Suc i)))"

fun find_last_not_of :: "string \<Rightarrow> string \<Rightarrow> nat option" where
  "find_last_not_of [] chars = None"
| "find_last_not_of (c # s) chars =
     (case find_last_not_of s chars of
        Some i \<Rightarrow> Some (Suc i)
      | None \<Rightarrow> (if c \<notin> set chars then Some 0 else None))"

text \<open>
  \<^verbatim>\<open>s.erase(pos)\<close> removes everything from \<open>pos\<close> on and throws when \<open>pos > size()\<close>;
  \<^verbatim>\<open>s.erase(0, n)\<close> removes the first \<open>min n (size())\<close> characters, all of them when
  \<open>n\<close> is \<^verbatim>\<open>npos\<close>.
\<close>

definition erase_from :: "string \<Rightarrow> nat \<Rightarrow> exn + string" where
  "erase_from s pos = (if length s < pos then Inl out_of_range else Inr (take pos s))"

definition erase_front :: "string \<Rightarrow> nat option \<Rightarrow> string" where
  "erase_front s n = (case n of None \<Rightarrow> [] | Some k \<Rightarrow> drop (min k (length s)) s)"

text \<open>
  \<^verbatim>\<open>s.erase(s.find_last_not_of(whitespace) + 1); s.erase(0, s.find_first_not_of(whitespace));\<close>
  The sum \<^verbatim>\<open>npos + 1\<close> is computed in \<^verbatim>\<open>size_t\<close> and wraps around to \<open>0\<close>.
\<close>

definition Trim :: "string \<Rightarrow> exn + string" where
  "Trim s =
     (case erase_from s (case find_last_not_of s whitespace of None \<Rightarrow> 0 | Some i \<Rightarrow> i + 1) of
        Inl e \<Rightarrow> Inl e
      | Inr s1 \<Rightarrow> Inr (erase_front s1 (find_first_not_of s1 whitespace)))"

subsection \<open>\<^verbatim>\<open>Model::LoadData\<close>\<close>

text \<open>
  \<^verbatim>\<open>std::getline(in, line)\<close> extracts characters up to the next newline, which it
  consumes and does not store, or up to the end of the input. It fails, and ends the
  \<^verbatim>\<open>while\<close> loop, only when it extracts nothing at all: at the end of the input.
  The result is the line and the rest of the input.
\<close>

fun getline :: "string \<Rightarrow> (string \<times> string) option" where
  "getline [] = None"
| "getline (c # cs) =
     (if c = newline then Some ([], cs)
      else (case getline cs of
              None \<Rightarrow> Some ([c], [])
            | Some (line, rest) \<Rightarrow> Some (c # line, rest)))"

lemma getline_shorter: "getline inp = Some (line, rest) \<Longrightarrow> length rest < length inp"
  by (induction inp arbitrary: line rest) (auto split: if_splits option.splits)

text \<open>
  \<^verbatim>\<open>while (std::getline(fin, line)) { Trim(line); if (!line.empty()) vec.push_back(line); }\<close>
\<close>

function read_entries :: "string \<Rightarrow> string list \<Rightarrow> exn + string list" where
  "read_entries inp vec =
     (case getline inp of
        None \<Rightarrow> Inr vec
      | Some (line, rest) \<Rightarrow>
          (case Trim line of
             Inl e \<Rightarrow> Inl e
           | Inr l \<Rightarrow> read_entries rest (if l \<noteq> [] then vec @ [l] else vec)))"
  by pat_completeness auto
termination
  by (relation "measure (\<lambda>(inp, vec). length inp)") (auto dest: getline_shorter)

declare read_entries.simps [simp del]

definition load_file :: "disk \<Rightarrow> string \<Rightarrow> string list \<Rightarrow> exn + string list" where
  "load_file d path vec =
     (case files d path of None \<Rightarrow> Inr vec | Some content \<Rightarrow> read_entries content vec)"

definition LoadData :: "Model \<Rightarrow> disk \<Rightarrow> exn + Model" where
  "LoadData m d =
     (case load_file d ''classes.txt'' (classes m) of
        Inl e \<Rightarrow> Inl e
      | Inr cs \<Rightarrow>
          (case load_file d ''students.txt'' (students m) of
             Inl e \<Rightarrow> Inl e
           | Inr ss \<Rightarrow> Inr (m\<lparr>classes := cs, students := ss\<rparr>)))"

text \<open>The constructor \<^verbatim>\<open>Model() { LoadData(); }\<close> starts from two empty vectors.\<close>

definition Model_new :: "disk \<Rightarrow> exn + Model" where
  "Model_new d = LoadData \<lparr>classes = [], students = []\<rparr> d"

subsection \<open>\<^verbatim>\<open>Model::SaveData\<close>\<close>

text \<open>\<^verbatim>\<open>for (const auto& c : vec) fout << c << '\n';\<close>\<close>

fun write_entries :: "string list \<Rightarrow> string \<Rightarrow> string" where
  "write_entries [] out = out"
| "write_entries (c # cs) out = write_entries cs (out @ c @ [newline])"

definition save_file :: "disk \<Rightarrow> string \<Rightarrow> string list \<Rightarrow> disk" where
  "save_file d path vec =
     (if writable d path then d\<lparr>files := (files d)(path \<mapsto> write_entries vec [])\<rparr> else d)"

definition SaveData :: "Model \<Rightarrow> disk \<Rightarrow> disk" where
  "SaveData m d = save_file (save_file d ''classes.txt'' (classes m)) ''students.txt'' (students m)"

subsection \<open>\<^verbatim>\<open>Model::AddClass\<close>, \<^verbatim>\<open>Model::AddStudent\<close> and the getters\<close>

text \<open>The state of a call is the model and the disk; the result is the returned flag and the new state.\<close>

definition AddClass :: "string \<Rightarrow> Model \<times> disk \<Rightarrow> bool \<times> Model \<times> disk" where
  "AddClass className st =
     (case st of (m, d) \<Rightarrow>
        if \<not> Exists (classes m) className
        then (let m' = m\<lparr>classes := classes m @ [className]\<rparr> in (True, m', SaveData m' d))
        else (False, m, d))"

definition AddStudent :: "string \<Rightarrow> Model \<times> disk \<Rightarrow> bool \<times> Model \<times> disk" where
  "AddStudent studentName st =
     (case st of (m, d) \<Rightarrow>
        if \<not> Exists (students m) studentName
        then (let m' = m\<lparr>students := students m @ [studentName]\<rparr> in (True, m', SaveData m' d))
        else (False, m, d))"

definition GetClasses :: "Model \<Rightarrow> string list" where
  "GetClasses m = classes m"

definition GetStudents :: "Model \<Rightarrow> string list" where
  "GetStudents m = students m"

text \<open>Successive calls of \<^verbatim>\<open>AddClass\<close>, one for each name of a list, with the flags they return.\<close>

fun AddClass_each :: "string list \<Rightarrow> Model \<times> disk \<Rightarrow> bool list \<times> Model \<times> disk" where
  "AddClass_each [] st = ([], st)"
| "AddClass_each (n # ns) st =
     (case AddClass n st of (r, st') \<Rightarrow>
        (case AddClass_each ns st' of (rs, st'') \<Rightarrow> (r # rs, st'')))"

section \<open>View: the card renderers\<close>

subsection \<open>Machine integers and the fill constructor\<close>

text \<open>
  The renderers mix \<^verbatim>\<open>int\<close> and \<^verbatim>\<open>size_t\<close>, and what they print for a long title is
  decided by the wrap-around. The model takes the usual LP64 platform: \<^verbatim>\<open>size_t\<close> has 64
  bits and is unsigned, \<^verbatim>\<open>int\<close> has 32 bits and is read in two's complement (\<open>sint\<close>).
  In \<^verbatim>\<open>int - size_t\<close> the \<^verbatim>\<open>int\<close> operand is converted to \<^verbatim>\<open>size_t\<close> (sign extension)
  and the arithmetic, division included, is unsigned and wraps; storing a \<^verbatim>\<open>size_t\<close> in
  an \<^verbatim>\<open>int\<close>, or casting it with \<^verbatim>\<open>(int)\<close>, keeps the low 32 bits. \<open>size_of\<close> is
  \<^verbatim>\<open>size()\<close>; it is exact for every container of fewer than \<open>2 ^ 64\<close> elements.
\<close>

type_synonym size_t = "64 word"
type_synonym c_int = "32 word"

definition size_of :: "'a list \<Rightarrow> size_t" where
  "size_of xs = of_nat (length xs)"

definition int_to_size_t :: "c_int \<Rightarrow> size_t" where
  "int_to_size_t n = scast n"

definition size_t_to_int :: "size_t \<Rightarrow> c_int" where
  "size_t_to_int n = ucast n"

text \<open>
  \<^verbatim>\<open>std::string(count, ch)\<close> takes its count as a \<^verbatim>\<open>size_t\<close> and throws
  \<^verbatim>\<open>std::length_error\<close> when the count exceeds \<^verbatim>\<open>max_size()\<close>, which is \<open>2 ^ 62 - 1\<close>
  in libstdc++ on LP64. A negative \<^verbatim>\<open>int\<close> passed as the count is converted to at least
  \<open>2 ^ 64 - 2 ^ 31\<close>: the constructor throws.
\<close>

definition string_max_size :: nat where
  "string_max_size = 2 ^ 62 - 1"

definition std_string_fill :: "size_t \<Rightarrow> char \<Rightarrow> exn + string" where
  "std_string_fill count ch =
     (if string_max_size < unat count then Inl length_error
      else Inr (replicate (unat count) ch))"

text \<open>Sequencing of computations that can throw.\<close>

definition and_then :: "exn + 'a \<Rightarrow> ('a \<Rightarrow> exn + 'b) \<Rightarrow> exn + 'b" where
  "and_then r f = (case r of Inl e \<Rightarrow> Inl e | Inr x \<Rightarrow> f x)"

subsection \<open>Escape sequences and box-drawing glyphs\<close>

text \<open>
  The three \<^verbatim>\<open>#define\<close>d colour codes, and the UTF-8 bytes of the five box-drawing
  characters of the string literals (U+256D, U+256E, U+2570, U+256F, U+2502).
\<close>

definition COLOR_RESET :: string where
  "COLOR_RESET = CHR 0x1B # ''[0m''"

definition COLOR_GRAY :: string where
  "COLOR_GRAY = CHR 0x1B # ''[38;2;107;114;128m''"

definition COLOR_BOLD :: string where
  "COLOR_BOLD = CHR 0x1B # ''[1m''"

definition arc_top_left :: string where
  "arc_top_left = [CHR 0xE2, CHR 0x95, CHR 0xAD]"

definition arc_top_right :: string where
  "arc_top_right = [CHR 0xE2, CHR 0x95, CHR 0xAE]"

definition arc_bottom_left :: string where
  "arc_bottom_left = [CHR 0xE2, CHR 0x95, CHR 0xB0]"

definition arc_bottom_right :: string where
  "arc_bottom_right = [CHR 0xE2, CHR 0x95, CHR 0xAF]"

definition bar_vertical :: string where
  "bar_vertical = [CHR 0xE2, CHR 0x94, CHR 0x82]"

subsection \<open>\<^verbatim>\<open>View::DisplayCardsGrid\<close>: the rows of one card\<close>

text \<open>
  A card is \<^verbatim>\<open>std::pair<std::string, std::vector<std::string>>\<close>: the title and the body
  lines. The three constants are local \<^verbatim>\<open>int\<close>s of the function; the loop counters
  \<^verbatim>\<open>c\<close>, \<^verbatim>\<open>ln\<close> and \<^verbatim>\<open>lineNum\<close> stay below 8 and the indices \<^verbatim>\<open>i\<close>, \<^verbatim>\<open>idx\<close> and
  \<^verbatim>\<open>cardIdx\<close> below the size of a vector plus two, so they are natural numbers here;
  only \<^verbatim>\<open>cardWidth\<close> enters the arithmetic on sizes.
\<close>

type_synonym card = "string \<times> string list"

definition cardsPerRow :: nat where
  "cardsPerRow = 2"

definition cardWidth :: c_int where
  "cardWidth = 50"

definition contentLines :: nat where
  "contentLines = 3"

text \<open>
  \<^verbatim>\<open>"\<dots>" + std::string(cardWidth - 2, '_') + "\<dots>"\<close> for the two borders, and the
  blank interior row \<^verbatim>\<open>"|" + std::string(cardWidth - 2, ' ') + "|"\<close>.
\<close>

definition top_line :: "exn + string" where
  "top_line =
     and_then (std_string_fill (int_to_size_t (cardWidth - 2)) CHR ''_'')
       (\<lambda>bar. Inr (arc_top_left @ bar @ arc_top_right))"

definition bottom_line :: "exn + string" where
  "bottom_line =
     and_then (std_string_fill (int_to_size_t (cardWidth - 2)) CHR ''_'')
       (\<lambda>bar. Inr (arc_bottom_left @ bar @ arc_bottom_right))"

definition blank_line :: "exn + string" where
  "blank_line =
     and_then (std_string_fill (int_to_size_t (cardWidth - 2)) CHR '' '')
       (\<lambda>gap. Inr (bar_vertical @ gap @ bar_vertical))"

text \<open>
  \<^verbatim>\<open>int titlePadLeft = (cardWidth - 2 - card.first.size()) / 2;\<close>
  \<^verbatim>\<open>int titlePadRight = cardWidth - 2 - card.first.size() - titlePadLeft;\<close>
  Both right-hand sides are \<^verbatim>\<open>size_t\<close> expressions, stored in an \<^verbatim>\<open>int\<close>.
\<close>

definition titlePadLeft :: "string \<Rightarrow> c_int" where
  "titlePadLeft title =
     size_t_to_int ((int_to_size_t (cardWidth - 2) - size_of title) div 2)"

definition titlePadRight :: "string \<Rightarrow> c_int" where
  "titlePadRight title =
     size_t_to_int (int_to_size_t (cardWidth - 2) - size_of title
                      - int_to_size_t (titlePadLeft title))"

definition title_line :: "string \<Rightarrow> exn + string" where
  "title_line title =
     and_then (std_string_fill (int_to_size_t (titlePadLeft title)) CHR '' '')
       (\<lambda>left. and_then (std_string_fill (int_to_size_t (titlePadRight title)) CHR '' '')
          (\<lambda>right. Inr (bar_vertical @ left @ COLOR_BOLD @ title @ COLOR_RESET @ right
                           @ bar_vertical)))"

text \<open>
  The body of the loop over \<^verbatim>\<open>ln\<close>: the row of body line \<open>ln\<close>, or a blank row when the
  card has no such line. The test \<^verbatim>\<open>ln < (int)card.second.size()\<close> and the test
  \<^verbatim>\<open>(int)content.size() > cardWidth - 3\<close> compare \<^verbatim>\<open>int\<close>s; \<^verbatim>\<open>substr(0, cardWidth - 6)\<close>
  keeps at most that many leading bytes. Where the first test holds, \<open>ln\<close> is below the
  number of body lines (lemma \<open>content_index_in_range\<close>), so \<^verbatim>\<open>card.second[ln]\<close> is an
  element of the vector.
\<close>

definition truncate_content :: "string \<Rightarrow> string" where
  "truncate_content content =
     (if sint (cardWidth - 3) < sint (size_t_to_int (size_of content))
      then take (unat (int_to_size_t (cardWidth - 6))) content @ ''...''
      else content)"

definition content_line :: "string list \<Rightarrow> nat \<Rightarrow> exn + string" where
  "content_line body ln =
     (if int ln < sint (size_t_to_int (size_of body))
      then (let content = truncate_content (body ! ln);
                padRight = size_t_to_int (int_to_size_t (cardWidth - 3) - size_of content)
            in and_then (std_string_fill (int_to_size_t padRight) CHR '' '')
                 (\<lambda>pad. Inr (bar_vertical @ '' '' @ content @ pad @ bar_vertical)))
      else blank_line)"

text \<open>\<^verbatim>\<open>for (int ln = 0; ln < contentLines; ++ln)\<close>, collecting the rows it composes.\<close>

function content_loop :: "string list \<Rightarrow> nat \<Rightarrow> string list \<Rightarrow> exn + string list" where
  "content_loop body ln acc =
     (if ln < contentLines
      then and_then (content_line body ln) (\<lambda>row. content_loop body (ln + 1) (acc @ [row]))
      else Inr acc)"
  by pat_completeness auto
termination
  by (relation "measure (\<lambda>(body, ln, acc). contentLines - ln)") auto

declare content_loop.simps [simp del]

text \<open>
  The seven rows composed for one card, in the order of the array \<^verbatim>\<open>lines[7]\<close>: row
  \<open>k\<close> is what the card pushes onto \<^verbatim>\<open>lines[k]\<close>. A throw while composing leaves the
  function, and the local array with it.
\<close>

definition card_lines :: "card \<Rightarrow> exn + string list" where
  "card_lines c =
     and_then top_line (\<lambda>r0.
     and_then (title_line (fst c)) (\<lambda>r1.
     and_then blank_line (\<lambda>r2.
     and_then (content_loop (snd c) 0 []) (\<lambda>rs.
     and_then bottom_line (\<lambda>r6. Inr ([r0, r1, r2] @ rs @ [r6]))))))"

subsection \<open>\<^verbatim>\<open>View::DisplayCardsGrid\<close>: the grid\<close>

text \<open>\<^verbatim>\<open>lines[k].push_back(row k)\<close> for the rows of one card.\<close>

definition push_card :: "string list list \<Rightarrow> string list \<Rightarrow> string list list" where
  "push_card lines rows = map (\<lambda>(column, row). column @ [row]) (zip lines rows)"

text \<open>
  \<^verbatim>\<open>for (int c = 0; c < cardsPerRow; ++c) { size_t idx = i + c; if (idx >= count) break; \<dots> }\<close>
\<close>

function compose_row :: "card list \<Rightarrow> nat \<Rightarrow> nat \<Rightarrow> string list list \<Rightarrow> exn + string list list" where
  "compose_row cards i c lines =
     (if c < cardsPerRow
      then (let idx = i + c
            in if length cards \<le> idx then Inr lines
               else and_then (card_lines (cards ! idx))
                      (\<lambda>rows. compose_row cards i (c + 1) (push_card lines rows)))
      else Inr lines)"
  by pat_completeness auto
termination
  by (relation "measure (\<lambda>(cards, i, c, lines). cardsPerRow - c)") auto

declare compose_row.simps [simp del]

text \<open>
  Printing one of the seven vectors: every entry between \<^verbatim>\<open>COLOR_GRAY\<close> and
  \<^verbatim>\<open>COLOR_RESET\<close>, four spaces after every entry but the last, then a newline. (The
  comparison with \<^verbatim>\<open>size() - 1\<close> is only made inside the loop, where the size is not
  zero.)
\<close>

function print_cells :: "string list \<Rightarrow> nat \<Rightarrow> string" where
  "print_cells cells cardIdx =
     (if cardIdx < length cells
      then COLOR_GRAY @ cells ! cardIdx @ COLOR_RESET
           @ (if cardIdx \<noteq> length cells - 1 then ''    '' else [])
           @ print_cells cells (cardIdx + 1)
      else [])"
  by pat_completeness auto
termination
  by (relation "measure (\<lambda>(cells, cardIdx). length cells - cardIdx)") auto

declare print_cells.simps [simp del]

fun print_lines :: "string list list \<Rightarrow> string" where
  "print_lines [] = []"
| "print_lines (cells # rest) = print_cells cells 0 @ [newline] @ print_lines rest"

text \<open>
  The outer loop \<^verbatim>\<open>for (size_t i = 0; i < count; i += cardsPerRow)\<close>. The result is what
  has been written to \<^verbatim>\<open>std::cout\<close> and, when a card threw, the exception that ended the
  call.
\<close>

function grid_loop :: "card list \<Rightarrow> nat \<Rightarrow> string \<Rightarrow> string \<times> exn option" where
  "grid_loop cards i out =
     (if i < length cards
      then (case compose_row cards i 0 (replicate 7 []) of
              Inl e \<Rightarrow> (out, Some e)
            | Inr lines \<Rightarrow>
                grid_loop cards (i + cardsPerRow) (out @ print_lines lines @ [newline]))
      else (out, None))"
  by pat_completeness auto
termination
  by (relation "measure (\<lambda>(cards, i, out). length cards - i)") (auto simp: cardsPerRow_def)

declare grid_loop.simps [simp del]

definition DisplayCardsGrid :: "card list \<Rightarrow> string \<times> exn option" where
  "DisplayCardsGrid cards = grid_loop cards 0 []"

subsection \<open>\<^verbatim>\<open>View::DisplayCard\<close>\<close>

text \<open>
  \<^verbatim>\<open>DisplayCard\<close> prints as it goes. Its body is a sequence of operands of \<^verbatim>\<open><<\<close>, each
  written to \<^verbatim>\<open>std::cout\<close> before the next one is evaluated (the order C++17 fixes for
  \<^verbatim>\<open><<\<close>); an operand that throws ends the call with the output written so far. In the
  quoted statements \<^verbatim>\<open>|\<close> stands for the vertical box-drawing character.
\<close>

fun write_all :: "(exn + string) list \<Rightarrow> string \<Rightarrow> string \<times> exn option" where
  "write_all [] out = (out, None)"
| "write_all (Inl e # rest) out = (out, Some e)"
| "write_all (Inr s # rest) out = write_all rest (out @ s)"

text \<open>
  The statements of the loop over the body lines:
  \<^verbatim>\<open>cout << "| " << line; int padding = cardWidth - 3 - line.size();\<close>
  \<^verbatim>\<open>cout << std::string(padding > 0 ? padding : 0, ' ') << "|\n";\<close>
\<close>

definition card_content :: "c_int \<Rightarrow> string \<Rightarrow> (exn + string) list" where
  "card_content width line =
     (let padding = size_t_to_int (int_to_size_t (width - 3) - size_of line)
      in [Inr (bar_vertical @ '' ''), Inr line,
          std_string_fill (int_to_size_t (if 0 < sint padding then padding else 0)) CHR '' '',
          Inr (bar_vertical @ [newline])])"

text \<open>
  The statement that prints the title row. Its two pads are \<^verbatim>\<open>size_t\<close> expressions,
  \<^verbatim>\<open>(cardWidth - 2 - title.size()) / 2\<close> and \<^verbatim>\<open>(cardWidth - 2 - title.size() + 1) / 2\<close>,
  handed to the fill constructor as they are.
\<close>

definition card_title :: "c_int \<Rightarrow> string \<Rightarrow> (exn + string) list" where
  "card_title width title =
     [Inr bar_vertical,
      std_string_fill ((int_to_size_t (width - 2) - size_of title) div 2) CHR '' '',
      Inr COLOR_BOLD, Inr title, Inr COLOR_RESET,
      std_string_fill ((int_to_size_t (width - 2) - size_of title + 1) div 2) CHR '' '',
      Inr (bar_vertical @ [newline])]"

text \<open>
  The two borders are built first, as local strings; then the rows are printed: the top
  border, the title row, the blank row, the body lines and the bottom border.
\<close>

definition DisplayCard :: "string \<Rightarrow> string list \<Rightarrow> c_int \<Rightarrow> string \<times> exn option" where
  "DisplayCard title lines width =
     (case std_string_fill (int_to_size_t (width - 2)) CHR ''_'' of
        Inl e \<Rightarrow> ([], Some e)
      | Inr bar1 \<Rightarrow>
     (case std_string_fill (int_to_size_t (width - 2)) CHR ''_'' of
        Inl e \<Rightarrow> ([], Some e)
      | Inr bar2 \<Rightarrow>
          (let topBot = arc_top_left @ bar1 @ arc_top_right @ [newline];
               bottom = arc_bottom_left @ bar2 @ arc_bottom_right @ [newline]
           in write_all
                ([Inr COLOR_GRAY, Inr topBot, Inr COLOR_RESET]
                 @ card_title width title
                 @ [Inr bar_vertical,
                    std_string_fill (int_to_size_t (width - 2)) CHR '' '',
                    Inr (bar_vertical @ [newline])]
                 @ concat (map (card_content width) lines)
                 @ [Inr COLOR_GRAY, Inr bottom, Inr COLOR_RESET])
                [])))"

section \<open>Notions of the specification\<close>

text \<open>
  The definitions of this section follow the words of the specification, not the code:
  they are what the code is compared with, and what the properties are stated in.
\<close>

subsection \<open>Names, trimming and newline-delimited entries\<close>

text \<open>
  Trimming removes the leading and the trailing whitespace of a line. The entries of a
  source are its lines, each one trimmed, without the lines that are empty after
  trimming; a source that cannot be read has no entries.
\<close>

definition is_space :: "char \<Rightarrow> bool" where
  "is_space c = (c \<in> set whitespace)"

definition trimmed :: "string \<Rightarrow> string" where
  "trimmed s = dropWhile is_space (rev (dropWhile is_space (rev s)))"

fun lines_of :: "string \<Rightarrow> string list" where
  "lines_of [] = []"
| "lines_of (c # cs) =
     (if c = newline then [] # lines_of cs
      else (case lines_of cs of [] \<Rightarrow> [[c]] | l # ls \<Rightarrow> (c # l) # ls))"

definition entries_of :: "string option \<Rightarrow> string list" where
  "entries_of src =
     (case src of
        None \<Rightarrow> []
      | Some content \<Rightarrow> filter (\<lambda>l. l \<noteq> []) (map trimmed (lines_of content)))"

text \<open>
  A name as the roster stores it: not empty, no whitespace at either end, and no newline
  inside.
\<close>

definition Name_ok :: "string \<Rightarrow> bool" where
  "Name_ok n = (n \<noteq> [] \<and> \<not> is_space (hd n) \<and> \<not> is_space (last n) \<and> newline \<notin> set n)"

subsection \<open>What a terminal shows\<close>

text \<open>
  The printable width of a row leaves out the escape sequences: an escape character
  followed by \<open>[\<close> opens a control sequence that runs up to its final byte (\<open>0x40\<close> to
  \<open>0x7E\<close>), and any other character after an escape character is dropped with it. What
  remains is counted in characters: a UTF-8 continuation byte (\<open>0x80\<close> to \<open>0xBF\<close>) is
  part of the character its lead byte started, so each box-drawing glyph counts once.
\<close>

datatype escape_state = Text | Escape | Control

fun strip_escapes :: "escape_state \<Rightarrow> string \<Rightarrow> string" where
  "strip_escapes st [] = []"
| "strip_escapes Text (c # cs) =
     (if c = CHR 0x1B then strip_escapes Escape cs else c # strip_escapes Text cs)"
| "strip_escapes Escape (c # cs) =
     (if c = CHR ''['' then strip_escapes Control cs else strip_escapes Text cs)"
| "strip_escapes Control (c # cs) =
     (if 0x40 \<le> (of_char c :: nat) \<and> (of_char c :: nat) \<le> 0x7E
      then strip_escapes Text cs else strip_escapes Control cs)"

definition visible :: "string \<Rightarrow> string" where
  "visible s = strip_escapes Text s"

definition continuation_byte :: "char \<Rightarrow> bool" where
  "continuation_byte c = ((of_char c :: nat) div 64 = 2)"

definition char_count :: "string \<Rightarrow> nat" where
  "char_count s = length (filter (\<lambda>c. \<not> continuation_byte c) s)"

definition printable_width :: "string \<Rightarrow> nat" where
  "printable_width s = char_count (visible s)"

text \<open>
  Plain text is made of the printable ASCII characters, \<open>0x20\<close> to \<open>0x7E\<close>: one byte
  and one column each, and none of them starts an escape sequence or ends a line.
\<close>

definition plain_char :: "char \<Rightarrow> bool" where
  "plain_char c = (0x20 \<le> (of_char c :: nat) \<and> (of_char c :: nat) \<le> 0x7E)"

definition plain_text :: "string \<Rightarrow> bool" where
  "plain_text s = list_all plain_char s"

text \<open>
  Text that can stand in one row: no escape character, which would open an escape
  sequence, and no newline, which would end the row.
\<close>

definition line_text :: "string \<Rightarrow> bool" where
  "line_text s = (CHR 0x1B \<notin> set s \<and> newline \<notin> set s)"

subsection \<open>The card of the specification\<close>

text \<open>
  The rows of a card of width \<open>W\<close> as the specification describes them: the two
  borders, the centred title between its emphasis markers, with the longer pad on the
  right, the blank interior row, and a three-row slot of body rows, a line longer than
  \<open>W - 3\<close> cut to \<open>W - 6\<close> characters and an ellipsis.
\<close>

definition spec_top :: "nat \<Rightarrow> string" where
  "spec_top W = arc_top_left @ replicate (W - 2) CHR ''_'' @ arc_top_right"

definition spec_bottom :: "nat \<Rightarrow> string" where
  "spec_bottom W = arc_bottom_left @ replicate (W - 2) CHR ''_'' @ arc_bottom_right"

definition spec_blank :: "nat \<Rightarrow> string" where
  "spec_blank W = bar_vertical @ replicate (W - 2) CHR '' '' @ bar_vertical"

definition spec_title :: "nat \<Rightarrow> string \<Rightarrow> string" where
  "spec_title W title =
     bar_vertical @ replicate ((W - 2 - length title) div 2) CHR '' ''
       @ COLOR_BOLD @ title @ COLOR_RESET
       @ replicate (W - 2 - length title - (W - 2 - length title) div 2) CHR '' ''
       @ bar_vertical"

definition spec_shown :: "nat \<Rightarrow> string \<Rightarrow> string" where
  "spec_shown W line = (if W - 3 < length line then take (W - 6) line @ ''...'' else line)"

definition spec_body_row :: "nat \<Rightarrow> string \<Rightarrow> string" where
  "spec_body_row W line =
     bar_vertical @ '' '' @ spec_shown W line
       @ replicate (W - 3 - length (spec_shown W line)) CHR '' '' @ bar_vertical"

definition spec_slot :: "nat \<Rightarrow> string list \<Rightarrow> nat \<Rightarrow> string" where
  "spec_slot W body k = (if k < length body then spec_body_row W (body ! k) else spec_blank W)"

definition spec_card :: "nat \<Rightarrow> card \<Rightarrow> string list" where
  "spec_card W c =
     [spec_top W, spec_title W (fst c), spec_blank W,
      spec_slot W (snd c) 0, spec_slot W (snd c) 1, spec_slot W (snd c) 2,
      spec_bottom W]"

text \<open>
  The sizes the renderer can measure: it reads the number of body lines and the length
  of a body line as \<^verbatim>\<open>int\<close>, so both have to be below \<open>2 ^ 31\<close>.
\<close>

definition int_sized :: "'a list \<Rightarrow> bool" where
  "int_sized xs = (length xs < 2 ^ 31)"

definition body_sized :: "string list \<Rightarrow> bool" where
  "body_sized body = (int_sized body \<and> list_all int_sized body)"

subsection \<open>The grid of the specification\<close>

text \<open>
  Cards are grouped two at a time, in input order; a last group may hold one card. A
  group is printed as its rows side by side: row \<open>k\<close> of each card between the gray and
  the reset code, a gutter of four spaces between two cards, a newline after the row.
  A blank line follows every group.
\<close>

fun groups_of_two :: "'a list \<Rightarrow> 'a list list" where
  "groups_of_two [] = []"
| "groups_of_two [a] = [[a]]"
| "groups_of_two (a # b # rest) = [a, b] # groups_of_two rest"

fun side_by_side :: "string list \<Rightarrow> string" where
  "side_by_side [] = []"
| "side_by_side [cell] = COLOR_GRAY @ cell @ COLOR_RESET"
| "side_by_side (cell # cells) = COLOR_GRAY @ cell @ COLOR_RESET @ ''    '' @ side_by_side cells"

text \<open>Entry \<open>k\<close> of \<open>columns\<close> holds row \<open>k\<close> of every card of a group.\<close>

definition columns :: "string list list \<Rightarrow> string list list" where
  "columns rendered = map (\<lambda>k. map (\<lambda>rows. rows ! k) rendered) [0..<7]"

definition group_block :: "string list list \<Rightarrow> string" where
  "group_block rendered =
     concat (map (\<lambda>k. side_by_side (map (\<lambda>rows. rows ! k) rendered) @ [newline]) [0..<7])
       @ [newline]"

text \<open>
  The grid is made of the cards that render: a card renders when composing its rows
  does not throw, and \<open>the_rows\<close> are the rows composed for it.
\<close>

definition renders :: "card \<Rightarrow> bool" where
  "renders c = (case card_lines c of Inl e \<Rightarrow> False | Inr rows \<Rightarrow> True)"

definition the_rows :: "card \<Rightarrow> string list" where
  "the_rows c = (case card_lines c of Inl e \<Rightarrow> [] | Inr rows \<Rightarrow> rows)"

definition spec_grid :: "card list \<Rightarrow> string" where
  "spec_grid cards = concat (map group_block (groups_of_two (map the_rows cards)))"

subsection \<open>The body rows of the single card\<close>


section \<open>Properties of the model\<close>

subsection \<open>Adding names\<close>

lemma std_find_le: "std_find vec val \<le> length vec"
  by (induction vec) auto

lemma Exists_iff: "Exists vec val \<longleftrightarrow> val \<in> set vec"
proof (induction vec)
  case Nil
  show ?case by (simp add: Exists_def)
next
  case (Cons x vec)
  then show ?case by (auto simp: Exists_def)
qed

lemma AddClass_eq:
  "AddClass n (m, d) =
     (if n \<in> set (classes m) then (False, m, d)
      else (True, m\<lparr>classes := classes m @ [n]\<rparr>, SaveData (m\<lparr>classes := classes m @ [n]\<rparr>) d))"
  by (simp add: AddClass_def Exists_iff Let_def)

lemma AddStudent_eq:
  "AddStudent n (m, d) =
     (if n \<in> set (students m) then (False, m, d)
      else (True, m\<lparr>students := students m @ [n]\<rparr>, SaveData (m\<lparr>students := students m @ [n]\<rparr>) d))"
  by (simp add: AddStudent_def Exists_iff Let_def)

lemma AddClass_each_general:
  "distinct ns \<Longrightarrow> set ns \<inter> set (classes m) = {} \<Longrightarrow>
   \<exists>d'. AddClass_each ns (m, d) = (replicate (length ns) True, m\<lparr>classes := classes m @ ns\<rparr>, d')"
proof (induction ns arbitrary: m d)
  case Nil
  show ?case by simp
next
  case (Cons n ns)
  let ?m1 = "m\<lparr>classes := classes m @ [n]\<rparr>"
  from Cons.prems have fresh: "n \<notin> set (classes m)" by auto
  then have step: "AddClass n (m, d) = (True, ?m1, SaveData ?m1 d)"
    by (simp add: AddClass_eq)
  from Cons.prems have "distinct ns" and "set ns \<inter> set (classes ?m1) = {}" by auto
  from Cons.IH [OF this, of "SaveData ?m1 d"] obtain d' where
    "AddClass_each ns (?m1, SaveData ?m1 d) = (replicate (length ns) True, ?m1\<lparr>classes := classes ?m1 @ ns\<rparr>, d')"
    by blast
  with step show ?case by simp
qed

text \<open>
  Claim C1. Whatever the roster and the name \<open>n\<close> (so also for a non-empty trimmed one):
  when \<open>n\<close> already occurs in the target list, \<^verbatim>\<open>AddClass\<close> (and likewise
  \<^verbatim>\<open>AddStudent\<close>) returns false and the model, with both lists, and the files stay as
  they were; otherwise \<open>n\<close> is appended at the end of the target list, the other list is
  untouched, both files are saved and the call returns true. From a state without \<open>n\<close>,
  two calls of \<^verbatim>\<open>AddClass n\<close> in a row return true and then false, and \<open>n\<close> occurs exactly
  once in the classes list.
\<close>

theorem add_rejects_duplicate_appends_fresh:
  "AddClass n (m, d) =
     (if n \<in> set (classes m) then (False, m, d)
      else (True, m\<lparr>classes := classes m @ [n]\<rparr>, SaveData (m\<lparr>classes := classes m @ [n]\<rparr>) d))
   \<and> AddStudent n (m, d) =
     (if n \<in> set (students m) then (False, m, d)
      else (True, m\<lparr>students := students m @ [n]\<rparr>, SaveData (m\<lparr>students := students m @ [n]\<rparr>) d))
   \<and> (n \<notin> set (classes m) \<longrightarrow>
        (\<exists>m1 d1 m2 d2. AddClass n (m, d) = (True, m1, d1) \<and> AddClass n (m1, d1) = (False, m2, d2)
           \<and> count_list (GetClasses m2) n = 1))"
proof (intro conjI impI)
  show "AddClass n (m, d) =
     (if n \<in> set (classes m) then (False, m, d)
      else (True, m\<lparr>classes := classes m @ [n]\<rparr>, SaveData (m\<lparr>classes := classes m @ [n]\<rparr>) d))"
    by (rule AddClass_eq)
  show "AddStudent n (m, d) =
     (if n \<in> set (students m) then (False, m, d)
      else (True, m\<lparr>students := students m @ [n]\<rparr>, SaveData (m\<lparr>students := students m @ [n]\<rparr>) d))"
    by (rule AddStudent_eq)
next
  assume fresh: "n \<notin> set (classes m)"
  let ?m1 = "m\<lparr>classes := classes m @ [n]\<rparr>"
  have first: "AddClass n (m, d) = (True, ?m1, SaveData ?m1 d)"
    using fresh by (simp add: AddClass_eq)
  have second: "AddClass n (?m1, SaveData ?m1 d) = (False, ?m1, SaveData ?m1 d)"
    by (simp add: AddClass_eq)
  have "count_list (classes m) n = 0"
    using fresh by (simp add: count_list_0_iff)
  then have once: "count_list (GetClasses ?m1) n = 1"
    by (simp add: GetClasses_def)
  from first second once
  show "\<exists>m1 d1 m2 d2. AddClass n (m, d) = (True, m1, d1) \<and> AddClass n (m1, d1) = (False, m2, d2)
           \<and> count_list (GetClasses m2) n = 1"
    by blast
qed

theorem add_rejects_duplicate_appends_fresh_witness:
  "''Algebra I'' \<notin> set (classes \<lparr>classes = [''Physics''], students = []\<rparr>)
   \<and> (\<exists>m1 d1 m2 d2.
         AddClass ''Algebra I'' (\<lparr>classes = [''Physics''], students = []\<rparr>, \<lparr>files = (\<lambda>p. None), writable = (\<lambda>p. True)\<rparr>) = (True, m1, d1)
       \<and> AddClass ''Algebra I'' (m1, d1) = (False, m2, d2)
       \<and> count_list (GetClasses m2) ''Algebra I'' = 1)"
proof -
  have fresh: "''Algebra I'' \<notin> set (classes \<lparr>classes = [''Physics''], students = []\<rparr>)"
    by simp
  from add_rejects_duplicate_appends_fresh
    [of "''Algebra I''" "\<lparr>classes = [''Physics''], students = []\<rparr>" "\<lparr>files = (\<lambda>p. None), writable = (\<lambda>p. True)\<rparr>"]
  have "''Algebra I'' \<notin> set (classes \<lparr>classes = [''Physics''], students = []\<rparr>) \<longrightarrow>
    (\<exists>m1 d1 m2 d2.
         AddClass ''Algebra I'' (\<lparr>classes = [''Physics''], students = []\<rparr>, \<lparr>files = (\<lambda>p. None), writable = (\<lambda>p. True)\<rparr>) = (True, m1, d1)
       \<and> AddClass ''Algebra I'' (m1, d1) = (False, m2, d2)
       \<and> count_list (GetClasses m2) ''Algebra I'' = 1)"
    by (rule conjunct2 [OF conjunct2])
  with fresh show ?thesis by (intro conjI) (rule fresh, erule mp, rule fresh)
qed

text \<open>
  Claim C4. Starting from an empty classes list, adding pairwise distinct names by
  successive calls of \<^verbatim>\<open>AddClass\<close> makes \<^verbatim>\<open>GetClasses\<close> return exactly these names in
  the order of the calls (and every call returns true).
\<close>

theorem add_order_preserved:
  "distinct ns \<Longrightarrow> classes m = [] \<Longrightarrow>
   GetClasses (fst (snd (AddClass_each ns (m, d)))) = ns
   \<and> fst (AddClass_each ns (m, d)) = replicate (length ns) True"
  using AddClass_each_general [of ns m d] by (auto simp: GetClasses_def)

theorem add_order_preserved_witness:
  "distinct [''Math'', ''Art'', ''Chemistry''] \<and> classes \<lparr>classes = [], students = [''Ann'']\<rparr> = []
   \<and> GetClasses (fst (snd (AddClass_each [''Math'', ''Art'', ''Chemistry'']
        (\<lparr>classes = [], students = [''Ann'']\<rparr>, \<lparr>files = (\<lambda>p. None), writable = (\<lambda>p. True)\<rparr>))))
      = [''Math'', ''Art'', ''Chemistry'']"
  using add_order_preserved [of "[''Math'', ''Art'', ''Chemistry'']" "\<lparr>classes = [], students = [''Ann'']\<rparr>"
      "\<lparr>files = (\<lambda>p. None), writable = (\<lambda>p. True)\<rparr>"]
  by simp

subsection \<open>Loading and saving\<close>

lemma find_last_not_of_None: "find_last_not_of s chars = None \<longleftrightarrow> set s \<subseteq> set chars"
  by (induction s) (auto split: option.splits)

lemma take_find_last_not_of:
  "take (case find_last_not_of s whitespace of None \<Rightarrow> 0 | Some i \<Rightarrow> i + 1) s
     = rev (dropWhile is_space (rev s))"
proof (induction s)
  case Nil
  show ?case by simp
next
  case (Cons c s)
  show ?case
  proof (cases "find_last_not_of s whitespace")
    case None
    then have "\<forall>x\<in>set (rev s). is_space x"
      by (auto simp: find_last_not_of_None is_space_def)
    then have "dropWhile is_space (rev s @ [c]) = dropWhile is_space [c]"
      using dropWhile_append2 [of "rev s" is_space "[c]"] by blast
    with None show ?thesis by (simp add: is_space_def [symmetric])
  next
    case (Some i)
    then have "\<not> set s \<subseteq> set whitespace"
      using find_last_not_of_None [of s whitespace] by simp
    then obtain x where "x \<in> set (rev s)" "\<not> is_space x"
      by (auto simp: is_space_def)
    then have "dropWhile is_space (rev s @ [c]) = dropWhile is_space (rev s) @ [c]"
      by (rule dropWhile_append1)
    with Some Cons.IH show ?thesis by simp
  qed
qed

lemma find_last_not_of_bound:
  "find_last_not_of s chars = Some i \<Longrightarrow> i < length s"
  by (induction s arbitrary: i) (auto split: option.splits if_splits)

lemma erase_front_find_first:
  "erase_front s (find_first_not_of s whitespace) = dropWhile is_space s"
  by (induction s) (auto simp: erase_front_def is_space_def split: option.splits)

lemma Trim_trimmed: "Trim s = Inr (trimmed s)"
proof -
  let ?pos = "case find_last_not_of s whitespace of None \<Rightarrow> 0 | Some i \<Rightarrow> i + 1"
  have "?pos \<le> length s"
    by (auto split: option.splits dest: find_last_not_of_bound)
  then have "erase_from s ?pos = Inr (rev (dropWhile is_space (rev s)))"
    by (simp add: erase_from_def take_find_last_not_of)
  then show ?thesis
    by (simp add: Trim_def trimmed_def erase_front_find_first)
qed

lemma getline_None: "getline inp = None \<longleftrightarrow> inp = []"
  by (cases inp) (auto split: option.splits)

lemma getline_lines_of: "getline inp = Some (line, rest) \<Longrightarrow> lines_of inp = line # lines_of rest"
proof (induction inp arbitrary: line rest)
  case Nil
  then show ?case by simp
next
  case (Cons c cs)
  show ?case
  proof (cases "c = newline")
    case True
    with Cons.prems show ?thesis by simp
  next
    case False
    show ?thesis
    proof (cases "getline cs")
      case None
      then have "cs = []" by (simp add: getline_None)
      with False Cons.prems show ?thesis by auto
    next
      case (Some p)
      obtain l r where p: "p = (l, r)" by (cases p)
      with Some Cons.IH have "lines_of cs = l # lines_of r" by simp
      with False Some p Cons.prems show ?thesis by auto
    qed
  qed
qed

lemma read_entries_eq: "read_entries inp vec = Inr (vec @ entries_of (Some inp))"
proof (induction inp vec rule: read_entries.induct)
  case (1 inp vec)
  show ?case
  proof (cases "getline inp")
    case None
    then show ?thesis
      by (subst read_entries.simps) (simp add: entries_of_def getline_None)
  next
    case (Some p)
    obtain line rest where p: "p = (line, rest)" by (cases p)
    have split: "lines_of inp = line # lines_of rest"
      using Some p by (simp add: getline_lines_of)
    have "read_entries inp vec
        = read_entries rest (if trimmed line \<noteq> [] then vec @ [trimmed line] else vec)"
      using Some p by (subst read_entries.simps) (simp add: Trim_trimmed)
    also have "\<dots> = Inr ((if trimmed line \<noteq> [] then vec @ [trimmed line] else vec)
                        @ entries_of (Some rest))"
      using "1.IH" [OF Some p [symmetric] Trim_trimmed] by simp
    also have "\<dots> = Inr (vec @ entries_of (Some inp))"
      by (simp add: entries_of_def split)
    finally show ?thesis .
  qed
qed

lemma load_file_eq: "load_file d path vec = Inr (vec @ entries_of (files d path))"
  by (cases "files d path") (simp_all add: load_file_def read_entries_eq entries_of_def)

text \<open>
  Claim C8. \<^verbatim>\<open>LoadData\<close> never throws. It appends to each list the entries of the
  corresponding file in file order: the newline-delimited lines, each trimmed of leading
  and trailing whitespace, without those that are empty after trimming. A source that is
  missing or does not open contributes no entry and no failure; the freshly constructed
  model then has an empty list for it.
\<close>

theorem LoadData_entries:
  "LoadData m d =
     Inr (m\<lparr>classes := classes m @ entries_of (files d ''classes.txt''),
            students := students m @ entries_of (files d ''students.txt'')\<rparr>)
   \<and> Model_new d =
     Inr \<lparr>classes = entries_of (files d ''classes.txt''),
          students = entries_of (files d ''students.txt'')\<rparr>
   \<and> entries_of None = []"
  by (simp add: LoadData_def Model_new_def load_file_eq entries_of_def)


theorem LoadData_entries_witness:
  "Model_new \<lparr>files = (\<lambda>p. if p = ''classes.txt''
        then Some (''  Math '' @ [newline, newline] @ ''Art'' @ [CHR 0x0D, newline, CHR 0x09, newline] @ ''Bio 2'')
        else None), writable = (\<lambda>p. False)\<rparr>
   = Inr \<lparr>classes = [''Math'', ''Art'', ''Bio 2''], students = []\<rparr>"
  using LoadData_entries [of "\<lparr>classes = [], students = []\<rparr>" "\<lparr>files = (\<lambda>p. if p = ''classes.txt''
        then Some (''  Math '' @ [newline, newline] @ ''Art'' @ [CHR 0x0D, newline, CHR 0x09, newline] @ ''Bio 2'')
        else None), writable = (\<lambda>p. False)\<rparr>"]
  by (simp add: entries_of_def trimmed_def is_space_def whitespace_def newline_def)

lemma write_entries_eq: "write_entries ns out = out @ concat (map (\<lambda>n. n @ [newline]) ns)"
  by (induction ns arbitrary: out) simp_all

lemma lines_of_line: "newline \<notin> set n \<Longrightarrow> lines_of (n @ newline # rest) = n # lines_of rest"
  by (induction n) auto

lemma lines_of_saved:
  "list_all (\<lambda>n. newline \<notin> set n) ns \<Longrightarrow> lines_of (concat (map (\<lambda>n. n @ [newline]) ns)) = ns"
  by (induction ns) (simp_all add: lines_of_line)

lemma trimmed_Name_ok: "Name_ok n \<Longrightarrow> trimmed n = n"
proof -
  assume ok: "Name_ok n"
  then obtain c cs where n: "n = c # cs" by (cases n) (auto simp: Name_ok_def)
  from ok have "rev n \<noteq> []" and "\<not> is_space (hd (rev n))"
    by (auto simp: Name_ok_def hd_rev)
  then have "dropWhile is_space (rev n) = rev n"
    by (cases "rev n") auto
  moreover from ok n have "dropWhile is_space n = n"
    by (simp add: Name_ok_def)
  ultimately show ?thesis by (simp add: trimmed_def)
qed

lemma entries_of_saved:
  assumes "list_all Name_ok ns"
  shows "entries_of (Some (write_entries ns [])) = ns"
proof -
  from assms have nl: "list_all (\<lambda>n. newline \<notin> set n) ns"
    by (induction ns) (simp_all add: Name_ok_def)
  from assms have tr: "map trimmed ns = ns"
    by (induction ns) (simp_all add: trimmed_Name_ok)
  from assms have ne: "filter (\<lambda>l. l \<noteq> []) ns = ns"
    by (induction ns) (simp_all add: Name_ok_def)
  show ?thesis
    by (simp add: entries_of_def write_entries_eq lines_of_saved [OF nl] tr ne)
qed

text \<open>
  Claim C3. For a roster whose entries are names (not empty, no whitespace at either
  end, no newline inside), \<^verbatim>\<open>SaveData\<close> on two files that open for writing followed by
  the construction of a model from the same two files gives back both lists, in order.
\<close>

theorem save_then_load_roundtrip:
  fixes m :: Model
  assumes "list_all Name_ok (classes m)" and "list_all Name_ok (students m)"
    and "writable d ''classes.txt''" and "writable d ''students.txt''"
  shows "Model_new (SaveData m d) = Inr m"
proof -
  have cl: "files (SaveData m d) ''classes.txt'' = Some (write_entries (classes m) [])"
    using assms(3,4) by (simp add: SaveData_def save_file_def)
  have st: "files (SaveData m d) ''students.txt'' = Some (write_entries (students m) [])"
    using assms(3,4) by (simp add: SaveData_def save_file_def)
  have "Model_new (SaveData m d) = Inr \<lparr>classes = classes m, students = students m\<rparr>"
    by (simp add: Model_new_def LoadData_def load_file_eq cl st entries_of_saved assms(1,2))
  then show ?thesis by simp
qed

theorem save_then_load_roundtrip_witness:
  "list_all Name_ok [''Algebra I'', ''Art''] \<and> list_all Name_ok [''Ann Lee'']
   \<and> Model_new (SaveData \<lparr>classes = [''Algebra I'', ''Art''], students = [''Ann Lee'']\<rparr>
                    \<lparr>files = (\<lambda>p. None), writable = (\<lambda>p. True)\<rparr>)
       = Inr \<lparr>classes = [''Algebra I'', ''Art''], students = [''Ann Lee'']\<rparr>"
proof -
  have a: "list_all Name_ok [''Algebra I'', ''Art'']"
    by (simp add: Name_ok_def is_space_def whitespace_def newline_def)
  have b: "list_all Name_ok [''Ann Lee'']"
    by (simp add: Name_ok_def is_space_def whitespace_def newline_def)
  from save_then_load_roundtrip
    [of "\<lparr>classes = [''Algebra I'', ''Art''], students = [''Ann Lee'']\<rparr>"
        "\<lparr>files = (\<lambda>p. None), writable = (\<lambda>p. True)\<rparr>"]
    a b
  show ?thesis by simp
qed

section \<open>Properties of the renderers\<close>

subsection \<open>The conversions, read as integers\<close>

text \<open>
  Each conversion is exact modulo \<open>2 ^ 64\<close> or \<open>2 ^ 32\<close>; \<open>take_bit\<close> and
  \<open>signed_take_bit\<close> say which bits survive.
\<close>

lemma sint_size_t_to_int: "sint (size_t_to_int x) = signed_take_bit 31 (uint x)"
  by (simp add: size_t_to_int_def signed_ucast_eq)

lemma uint_int_to_size_t: "uint (int_to_size_t v) = take_bit 64 (sint v)"
  unfolding int_to_size_t_def scast_eq uint_word_of_int_eq by simp

lemma uint_size_of: "uint (size_of xs) = take_bit 64 (int (length xs))"
  by (simp add: size_of_def unsigned_of_nat take_bit_of_nat)

lemma uint_size_t_diff:
  "uint (a - b :: size_t) = take_bit 64 (uint a - uint b)"
  by (simp add: uint_word_arith_bintrs)

lemma tb64_diff_right: "take_bit 64 (a - take_bit 64 b) = take_bit 64 (a - b :: int)"
  by (simp add: take_bit_eq_mod mod_diff_right_eq)

lemma tb64_diff_left: "take_bit 64 (take_bit 64 a - b) = take_bit 64 (a - b :: int)"
  by (simp add: take_bit_eq_mod mod_diff_left_eq)

lemma take_bit_half: "take_bit 64 (z :: int) div 2 = take_bit 63 (z div 2)"
  using take_bit_drop_bit [of 63 1 z] by (simp add: drop_bit_eq_div)

lemma stb_tb64: "signed_take_bit 31 (take_bit 64 (z :: int)) = signed_take_bit 31 z"
  by (simp add: signed_take_bit_take_bit)

lemma stb_tb63: "signed_take_bit 31 (take_bit 63 (z :: int)) = signed_take_bit 31 z"
  by (simp add: signed_take_bit_take_bit)

lemma widths: "sint (cardWidth - 2) = 48" "sint (cardWidth - 3) = 47"
  "sint (cardWidth - 6) = 44"
  by (simp_all add: cardWidth_def)

lemma sint_titlePadLeft:
  "sint (titlePadLeft title) = signed_take_bit 31 ((48 - int (length title)) div 2)"
proof -
  have "uint (int_to_size_t (cardWidth - 2) - size_of title)
      = take_bit 64 (48 - int (length title))"
    by (simp add: uint_size_t_diff uint_int_to_size_t uint_size_of widths tb64_diff_right tb64_diff_left)
  then have "uint ((int_to_size_t (cardWidth - 2) - size_of title) div 2)
      = take_bit 63 ((48 - int (length title)) div 2)"
    by (simp add: uint_div_distrib take_bit_half)
  then show ?thesis
    by (simp add: titlePadLeft_def sint_size_t_to_int stb_tb63)
qed

lemma sint_titlePadRight:
  "sint (titlePadRight title)
     = signed_take_bit 31 (48 - int (length title) - sint (titlePadLeft title))"
proof -
  have "uint (int_to_size_t (cardWidth - 2) - size_of title - int_to_size_t (titlePadLeft title))
      = take_bit 64 (48 - int (length title) - sint (titlePadLeft title))"
    by (simp add: uint_size_t_diff uint_int_to_size_t uint_size_of widths tb64_diff_right tb64_diff_left)
  then show ?thesis
    by (simp add: titlePadRight_def sint_size_t_to_int stb_tb64)
qed

lemma tb64_negative: "- (2 ^ 64) \<le> k \<Longrightarrow> k < 0 \<Longrightarrow> take_bit 64 k = k + 2 ^ 64" for k :: int
proof -
  assume a: "- (2 ^ 64) \<le> k" "k < 0"
  then have "(k + 2 ^ 64) mod 2 ^ 64 = k + 2 ^ 64"
    by (intro mod_pos_pos_trivial) simp_all
  then show ?thesis by (simp add: take_bit_eq_mod)
qed

lemma unat_int_to_size_t: "unat (int_to_size_t v) = nat (take_bit 64 (sint v))"
  using uint_int_to_size_t [of v] by (simp add: unat_eq_nat_uint del: nat_uint_eq)

lemma fill_from_int:
  "std_string_fill (int_to_size_t v) ch =
     (if sint v < 0 then Inl length_error else Inr (replicate (nat (sint v)) ch))"
proof -
  have range: "- (2 ^ 31) \<le> sint v" "sint v < 2 ^ 31"
    using sint_ge [of v] sint_lt [of v] by simp_all
  show ?thesis
  proof (cases "sint v < 0")
    case True
    with range have "take_bit 64 (sint v) = sint v + 2 ^ 64"
      by (intro tb64_negative) simp_all
    with range have "string_max_size < unat (int_to_size_t v)"
      by (simp add: unat_int_to_size_t string_max_size_def)
    with True show ?thesis
      by (simp add: std_string_fill_def)
  next
    case False
    with range have "take_bit 64 (sint v) = sint v"
      by (simp add: take_bit_int_eq_self)
    with False range have "unat (int_to_size_t v) = nat (sint v)" "nat (sint v) \<le> string_max_size"
      by (simp_all add: unat_int_to_size_t string_max_size_def)
    with False show ?thesis
      by (simp add: std_string_fill_def)
  qed
qed

subsection \<open>The rows of one card\<close>

text \<open>
  For a title of at most 48 bytes and a body the renderer can measure, the seven rows
  composed by \<^verbatim>\<open>DisplayCardsGrid\<close> are the rows of the specification's card at width 50.
  For a longer title the left pad is negative and the fill constructor throws.
\<close>

lemma and_then_simps [simp]: "and_then (Inr x) f = f x" "and_then (Inl e) f = Inl e"
  by (simp_all add: and_then_def)

lemma stb31_id: "- (2 ^ 31) \<le> k \<Longrightarrow> k < 2 ^ 31 \<Longrightarrow> signed_take_bit 31 k = k" for k :: int
  by (rule signed_take_bit_int_eq_self) simp_all

lemma top_line_eq: "top_line = Inr (spec_top 50)"
  by (simp add: top_line_def fill_from_int widths spec_top_def)

lemma bottom_line_eq: "bottom_line = Inr (spec_bottom 50)"
  by (simp add: bottom_line_def fill_from_int widths spec_bottom_def)

lemma blank_line_eq: "blank_line = Inr (spec_blank 50)"
  by (simp add: blank_line_def fill_from_int widths spec_blank_def)

lemma sint_titlePadLeft_short:
  assumes "length title \<le> 48"
  shows "sint (titlePadLeft title) = int ((48 - length title) div 2)"
proof -
  from assms have "(48 - int (length title)) div 2 = int ((48 - length title) div 2)"
    by (simp add: of_nat_diff zdiv_int)
  moreover have "signed_take_bit 31 (int ((48 - length title) div 2)) = int ((48 - length title) div 2)"
    by (rule stb31_id) simp_all
  ultimately show ?thesis by (simp add: sint_titlePadLeft)
qed

lemma sint_titlePadRight_short:
  assumes "length title \<le> 48"
  shows "sint (titlePadRight title) = int (48 - length title - (48 - length title) div 2)"
proof -
  from assms have "48 - int (length title) - sint (titlePadLeft title)
      = int (48 - length title - (48 - length title) div 2)"
    by (simp add: sint_titlePadLeft_short of_nat_diff)
  moreover have "signed_take_bit 31 (int (48 - length title - (48 - length title) div 2))
      = int (48 - length title - (48 - length title) div 2)"
    by (rule stb31_id) simp_all
  ultimately show ?thesis by (simp add: sint_titlePadRight)
qed

lemma title_line_short:
  assumes "length title \<le> 48"
  shows "title_line title = Inr (spec_title 50 title)"
proof -
  define left where "left = (48 - length title) div 2"
  define right where "right = 48 - length title - (48 - length title) div 2"
  have l: "sint (titlePadLeft title) = int left" and r: "sint (titlePadRight title) = int right"
    using assms by (simp_all add: left_def right_def sint_titlePadLeft_short sint_titlePadRight_short)
  have "title_line title
      = Inr (bar_vertical @ replicate left CHR '' '' @ COLOR_BOLD @ title @ COLOR_RESET
              @ replicate right CHR '' '' @ bar_vertical)"
    by (simp add: title_line_def fill_from_int l r)
  then show ?thesis by (simp add: spec_title_def left_def right_def)
qed

lemma sint_titlePadLeft_long:
  assumes "48 < length title" and "length title \<le> 2 ^ 32 + 48"
  shows "sint (titlePadLeft title) = (48 - int (length title)) div 2"
    and "sint (titlePadLeft title) < 0"
proof -
  let ?z = "(48 - int (length title)) div 2"
  from assms have "- (2 ^ 31) \<le> ?z" and neg: "?z < 0" by simp_all
  then have "signed_take_bit 31 ?z = ?z" by (intro stb31_id) simp_all
  then show eq: "sint (titlePadLeft title) = ?z" by (simp add: sint_titlePadLeft)
  from eq neg show "sint (titlePadLeft title) < 0" by simp
qed

lemma title_line_long:
  "48 < length title \<Longrightarrow> length title \<le> 2 ^ 32 + 48 \<Longrightarrow> title_line title = Inl length_error"
  by (simp add: title_line_def fill_from_int sint_titlePadLeft_long(2))

lemma sint_size_of: "int_sized xs \<Longrightarrow> sint (size_t_to_int (size_of xs)) = int (length xs)"
  by (simp add: sint_size_t_to_int uint_size_of stb_tb64 stb31_id int_sized_def)

lemma content_index_in_range:
  assumes "int ln < sint (size_t_to_int (size_of body))"
  shows "ln < length body"
proof -
  have "signed_take_bit 31 (int (length body)) \<le> int (length body)"
    by (simp add: signed_take_bit_int_less_eq_self_iff)
  with assms show ?thesis
    by (simp add: sint_size_t_to_int uint_size_of stb_tb64)
qed

lemma unat_44: "unat (int_to_size_t (cardWidth - 6)) = 44"
  by (simp add: unat_int_to_size_t widths)

lemma truncate_content_eq: "int_sized line \<Longrightarrow> truncate_content line = spec_shown 50 line"
  by (simp add: truncate_content_def spec_shown_def sint_size_of widths unat_44)

lemma length_spec_shown: "length (spec_shown 50 line) \<le> 47"
  by (simp add: spec_shown_def)

lemma stb31_nat: "k \<le> 48 \<Longrightarrow> signed_take_bit 31 (int k) = int k"
proof (rule signed_take_bit_int_eq_self)
  show "- (2 ^ 31) \<le> int k" by simp
  assume "k \<le> 48"
  then have "int k \<le> 48" by simp
  then show "int k < 2 ^ 31" by simp
qed

lemma sint_padRight:
  assumes "length content \<le> 47"
  shows "sint (size_t_to_int (int_to_size_t (cardWidth - 3) - size_of content))
           = int (47 - length content)"
proof -
  have u: "uint (int_to_size_t (cardWidth - 3) - size_of content) = take_bit 64 (47 - int (length content))"
    unfolding uint_size_t_diff uint_int_to_size_t uint_size_of widths tb64_diff_right tb64_diff_left ..
  from assms have d: "47 - int (length content) = int (47 - length content)"
    by linarith
  have s: "signed_take_bit 31 (int (47 - length content)) = int (47 - length content)"
    by (rule stb31_nat) simp
  have "sint (size_t_to_int (int_to_size_t (cardWidth - 3) - size_of content))
      = signed_take_bit 31 (47 - int (length content))"
    unfolding sint_size_t_to_int u stb_tb64 ..
  also have "\<dots> = int (47 - length content)"
    unfolding d s ..
  finally show ?thesis .
qed

lemma content_line_at:
  assumes "int_sized body" and "ln < length body" and "int_sized (body ! ln)"
  shows "content_line body ln = Inr (spec_body_row 50 (body ! ln))"
proof -
  from assms(1) have count: "sint (size_t_to_int (size_of body)) = int (length body)"
    by (rule sint_size_of)
  from assms(3) have shown: "truncate_content (body ! ln) = spec_shown 50 (body ! ln)"
    by (rule truncate_content_eq)
  show ?thesis
    using assms(2)
    by (simp add: content_line_def count shown Let_def fill_from_int
        sint_padRight [OF length_spec_shown] spec_body_row_def)
qed

lemma content_line_beyond:
  assumes "int_sized body" and "length body \<le> ln"
  shows "content_line body ln = Inr (spec_blank 50)"
proof -
  from assms(1) have count: "sint (size_t_to_int (size_of body)) = int (length body)"
    by (rule sint_size_of)
  with assms(2) show ?thesis
    by (simp add: content_line_def blank_line_eq)
qed

lemma content_line_eq:
  assumes "body_sized body"
  shows "content_line body ln = Inr (spec_slot 50 body ln)"
proof (cases "ln < length body")
  case True
  with assms have "int_sized (body ! ln)"
    by (simp add: body_sized_def list_all_length)
  with assms True show ?thesis
    by (simp add: content_line_at body_sized_def spec_slot_def)
next
  case False
  with assms show ?thesis
    by (simp add: content_line_beyond body_sized_def spec_slot_def)
qed

lemma content_loop_eq:
  assumes "body_sized body"
  shows "content_loop body 0 [] = Inr [spec_slot 50 body 0, spec_slot 50 body 1, spec_slot 50 body 2]"
proof -
  have "content_loop body (Suc (Suc (Suc 0))) acc = Inr acc" for acc
    by (subst content_loop.simps) (simp add: contentLines_def)
  then have "content_loop body (Suc (Suc 0)) acc = Inr (acc @ [spec_slot 50 body (Suc (Suc 0))])" for acc
    by (subst content_loop.simps) (simp add: contentLines_def content_line_eq [OF assms])
  then have "content_loop body (Suc 0) acc
      = Inr (acc @ [spec_slot 50 body (Suc 0), spec_slot 50 body (Suc (Suc 0))])" for acc
    by (subst content_loop.simps) (simp add: contentLines_def content_line_eq [OF assms])
  then have "content_loop body 0 []
      = Inr [spec_slot 50 body 0, spec_slot 50 body (Suc 0), spec_slot 50 body (Suc (Suc 0))]"
    by (subst content_loop.simps) (simp add: contentLines_def content_line_eq [OF assms])
  then show ?thesis by (simp add: numeral_2_eq_2)
qed

lemma card_lines_eq:
  "length (fst c) \<le> 48 \<Longrightarrow> body_sized (snd c) \<Longrightarrow> card_lines c = Inr (spec_card 50 c)"
  by (simp add: card_lines_def top_line_eq title_line_short blank_line_eq content_loop_eq
      bottom_line_eq spec_card_def)

lemma card_lines_long_title:
  "48 < length (fst c) \<Longrightarrow> length (fst c) \<le> 2 ^ 32 + 48 \<Longrightarrow> card_lines c = Inl length_error"
  by (simp add: card_lines_def top_line_eq title_line_long)

lemma and_then_Inr_iff:
  "and_then r f = Inr y \<longleftrightarrow> (\<exists>x. r = Inr x \<and> f x = Inr y)"
  by (cases r) simp_all

lemma content_loop_rows:
  assumes "content_loop body 0 [] = Inr rs"
  shows "\<exists>a b c. rs = [a, b, c] \<and> content_line body 0 = Inr a
           \<and> content_line body 1 = Inr b \<and> content_line body 2 = Inr c"
proof -
  have three: "content_loop body (Suc (Suc (Suc 0))) acc = Inr acc" for acc
    by (subst content_loop.simps) (simp add: contentLines_def)
  from assms obtain a where a: "content_line body 0 = Inr a"
      and 1: "content_loop body (Suc 0) [a] = Inr rs"
    by (subst (asm) content_loop.simps) (auto simp: contentLines_def and_then_Inr_iff)
  from 1 obtain b where b: "content_line body (Suc 0) = Inr b"
      and 2: "content_loop body (Suc (Suc 0)) [a, b] = Inr rs"
    by (subst (asm) content_loop.simps) (auto simp: contentLines_def and_then_Inr_iff)
  from 2 obtain c where c: "content_line body (Suc (Suc 0)) = Inr c"
      and 3: "content_loop body (Suc (Suc (Suc 0))) [a, b, c] = Inr rs"
    by (subst (asm) content_loop.simps) (auto simp: contentLines_def and_then_Inr_iff)
  from 3 three have "rs = [a, b, c]" by simp
  with a b c show ?thesis by (simp add: numeral_2_eq_2)
qed

lemma card_lines_rows:
  assumes "card_lines c = Inr rows"
  shows "\<exists>r1 a b d. rows = [spec_top 50, r1, spec_blank 50, a, b, d, spec_bottom 50]
           \<and> title_line (fst c) = Inr r1
           \<and> content_line (snd c) 0 = Inr a \<and> content_line (snd c) 1 = Inr b
           \<and> content_line (snd c) 2 = Inr d"
proof -
  from assms obtain r1 rs where t: "title_line (fst c) = Inr r1"
      and l: "content_loop (snd c) 0 [] = Inr rs"
      and rows: "rows = [spec_top 50, r1, spec_blank 50] @ rs @ [spec_bottom 50]"
    by (auto simp: card_lines_def top_line_eq blank_line_eq bottom_line_eq and_then_Inr_iff)
  from content_loop_rows [OF l] rows t show ?thesis by auto
qed

lemma length_card_lines: "card_lines c = Inr rows \<Longrightarrow> length rows = 7"
  by (auto dest: card_lines_rows)


subsection \<open>The title row\<close>






subsection \<open>A title longer than 48 bytes\<close>







subsection \<open>The grid\<close>

lemma renders_rows: "renders c \<Longrightarrow> card_lines c = Inr (the_rows c)"
  by (simp add: renders_def the_rows_def split: sum.splits)

lemma length_the_rows: "renders c \<Longrightarrow> length (the_rows c) = 7"
  by (auto dest: renders_rows length_card_lines)

lemma print_cells_eq: "i \<le> length cells \<Longrightarrow> print_cells cells i = side_by_side (drop i cells)"
proof (induction cells i rule: print_cells.induct)
  case (1 cells cardIdx)
  show ?case
  proof (cases "cardIdx < length cells")
    case False
    with "1.prems" show ?thesis
      by (subst print_cells.simps) simp
  next
    case True
    then have split: "drop cardIdx cells = cells ! cardIdx # drop (Suc cardIdx) cells"
      by (simp add: Cons_nth_drop_Suc)
    from True have IH: "print_cells cells (cardIdx + 1) = side_by_side (drop (cardIdx + 1) cells)"
      by (intro "1.IH") simp_all
    show ?thesis
    proof (cases "cardIdx = length cells - 1")
      case True
      then have "drop (Suc cardIdx) cells = []" by simp
      with \<open>cardIdx < length cells\<close> True IH split show ?thesis
        by (subst print_cells.simps) simp
    next
      case False
      with \<open>cardIdx < length cells\<close> obtain x xs where "drop (Suc cardIdx) cells = x # xs"
        by (cases "drop (Suc cardIdx) cells") auto
      with \<open>cardIdx < length cells\<close> False IH split show ?thesis
        by (subst print_cells.simps) simp
    qed
  qed
qed

lemma print_lines_eq:
  "print_lines lines = concat (map (\<lambda>cells. side_by_side cells @ [newline]) lines)"
  by (induction lines) (simp_all add: print_cells_eq)

lemma zip_maps_same: "zip (map f xs) (map g xs) = map (\<lambda>k. (f k, g k)) xs"
  by (induction xs) simp_all

lemma push_card_columns:
  assumes "length rows = 7"
  shows "push_card (map f [0..<7]) rows = map (\<lambda>k. f k @ [rows ! k]) [0..<7]"
proof -
  have "map ((!) rows) [0..<length rows] = rows"
    by (rule map_nth)
  with assms have "push_card (map f [0..<7]) rows
      = push_card (map f [0..<7]) (map ((!) rows) [0..<7])"
    by simp
  also have "\<dots> = map (\<lambda>k. f k @ [rows ! k]) [0..<7]"
    unfolding push_card_def zip_maps_same by (simp add: o_def del: upt_rec_numeral)
  finally show ?thesis .
qed

lemma compose_row_done: "compose_row cards i 2 lines = Inr lines"
  by (subst compose_row.simps) (simp add: cardsPerRow_def)

lemma compose_row_second:
  "compose_row cards i (Suc 0) lines =
     (if length cards \<le> Suc i then Inr lines
      else and_then (card_lines (cards ! Suc i)) (\<lambda>rows. Inr (push_card lines rows)))"
  by (subst compose_row.simps) (simp add: cardsPerRow_def compose_row_done numeral_2_eq_2 [symmetric])

lemma compose_row_first:
  "compose_row cards i 0 lines =
     (if length cards \<le> i then Inr lines
      else and_then (card_lines (cards ! i))
             (\<lambda>rows. compose_row cards i (Suc 0) (push_card lines rows)))"
  by (subst compose_row.simps) (simp add: cardsPerRow_def)

lemma empty_columns: "replicate 7 [] = columns []"
  by (simp add: columns_def map_replicate_const)

lemma push_card_onto_columns:
  "length rows = 7 \<Longrightarrow> push_card (columns rendered) rows = columns (rendered @ [rows])"
  unfolding columns_def by (simp add: push_card_columns del: upt_rec_numeral)

lemma print_columns: "print_lines (columns rendered) @ [newline] = group_block rendered"
  unfolding print_lines_eq columns_def group_block_def by (simp add: o_def del: upt_rec_numeral)

lemma compose_row_single:
  assumes "Suc i = length cards" and "renders (cards ! i)"
  shows "compose_row cards i 0 (replicate 7 []) = Inr (columns [the_rows (cards ! i)])"
  using assms
  by (simp add: compose_row_first compose_row_second renders_rows empty_columns
      push_card_onto_columns length_the_rows)

lemma compose_row_pair:
  assumes "Suc i < length cards" and "renders (cards ! i)" and "renders (cards ! Suc i)"
  shows "compose_row cards i 0 (replicate 7 [])
           = Inr (columns [the_rows (cards ! i), the_rows (cards ! Suc i)])"
  using assms
  by (simp add: compose_row_first compose_row_second renders_rows empty_columns
      push_card_onto_columns length_the_rows)

lemma compose_row_throws:
  assumes "i < length cards" and "card_lines (cards ! i) = Inl e"
  shows "compose_row cards i 0 lines = Inl e"
  using assms by (simp add: compose_row_first)

lemma grid_loop_throws:
  assumes "i < length cards" and "card_lines (cards ! i) = Inl e"
  shows "grid_loop cards i out = (out, Some e)"
  using assms by (subst grid_loop.simps) (simp add: compose_row_throws)

lemma grid_loop_eq:
  "list_all renders cards \<Longrightarrow>
   grid_loop cards i out = (out @ spec_grid (drop i cards), None)"
proof (induction cards i out rule: grid_loop.induct)
  case (1 cards i out)
  consider "length cards \<le> i" | "Suc i = length cards" | "Suc i < length cards"
    by linarith
  then show ?case
  proof cases
    case 1
    then show ?thesis
      by (subst grid_loop.simps) (simp add: spec_grid_def)
  next
    case 2
    with "1.prems" have r: "renders (cards ! i)"
      by (simp add: list_all_length)
    from 2 have d: "drop i cards = [cards ! i]"
      by (metis Cons_nth_drop_Suc drop_all lessI order_refl)
    from 2 have beyond: "grid_loop cards (i + cardsPerRow) out' = (out', None)" for out'
      by (subst grid_loop.simps) (simp add: cardsPerRow_def)
    from 2 show ?thesis
      by (subst grid_loop.simps)
        (simp add: compose_row_single [OF 2 r] beyond d spec_grid_def print_columns
         )
  next
    case 3
    with "1.prems" have r: "renders (cards ! i)" "renders (cards ! Suc i)"
      by (simp_all add: list_all_length)
    from 3 have d: "drop i cards = cards ! i # cards ! Suc i # drop (i + cardsPerRow) cards"
      by (simp add: cardsPerRow_def Cons_nth_drop_Suc)
    have c: "compose_row cards i 0 (replicate 7 [])
        = Inr (columns [the_rows (cards ! i), the_rows (cards ! Suc i)])"
      by (rule compose_row_pair [OF 3 r])
    from 3 have "i < length cards" by simp
    from "1.IH" [OF this c "1.prems"]
    have IH: "grid_loop cards (i + cardsPerRow) out' = (out' @ spec_grid (drop (i + cardsPerRow) cards), None)"
      if "out' = out @ print_lines (columns [the_rows (cards ! i), the_rows (cards ! Suc i)]) @ [newline]"
      for out'
      using that by simp
    from 3 show ?thesis
      by (subst grid_loop.simps)
        (simp add: c IH d spec_grid_def print_columns)
  qed
qed

subsection \<open>When the title padding is defined\<close>

lemma renders_short: "length (fst c) \<le> 48 \<Longrightarrow> body_sized (snd c) \<Longrightarrow> renders c"
  by (simp add: renders_def card_lines_eq)

lemma DisplayCardsGrid_throws:
  "card_lines c = Inl e \<Longrightarrow> DisplayCardsGrid (c # rest) = ([], Some e)"
  by (simp add: DisplayCardsGrid_def grid_loop_throws)



subsection \<open>The layout of the grid\<close>

lemma concat_groups_of_two: "concat (groups_of_two xs) = xs"
  by (induction xs rule: groups_of_two.induct) simp_all

lemma groups_of_two_map: "groups_of_two (map f xs) = map (map f) (groups_of_two xs)"
  by (induction xs rule: groups_of_two.induct) simp_all

lemma groups_of_two_sizes:
  "list_all (\<lambda>g. length g = 2 \<or> (length g = 1 \<and> odd (length xs))) (groups_of_two xs)"
  by (induction xs rule: groups_of_two.induct) (simp_all add: list_all_iff)

lemma group_block_single:
  "group_block [r] = concat (map (\<lambda>k. COLOR_GRAY @ r ! k @ COLOR_RESET @ [newline]) [0..<7]) @ [newline]"
  unfolding group_block_def by (simp del: upt_rec_numeral)

lemma group_block_pair:
  "group_block [r, r'] =
     concat (map (\<lambda>k. COLOR_GRAY @ r ! k @ COLOR_RESET @ ''    ''
                        @ COLOR_GRAY @ r' ! k @ COLOR_RESET @ [newline]) [0..<7]) @ [newline]"
  unfolding group_block_def by (simp del: upt_rec_numeral)

text \<open>
  Claim C6, amended. For every sequence of cards that all render (none makes the
  composition of its rows throw), \<^verbatim>\<open>DisplayCardsGrid\<close> prints the groups of two cards in
  input order, nothing reordered, a last group holding a single card when the number of
  cards is odd. For each group it prints seven lines: row \<open>k\<close> of the first card
  between the gray and the reset code and, when the group has a second card, four spaces
  and row \<open>k\<close> of the second card in the same way; then a newline. One blank line
  follows each group. A single-card group has one column only.
\<close>

theorem grid_layout_of_rendering_cards:
  assumes "list_all renders cards"
  shows "DisplayCardsGrid cards
           = (concat (map group_block (map (map the_rows) (groups_of_two cards))), None)
       \<and> concat (groups_of_two cards) = cards
       \<and> list_all (\<lambda>g. length g = 2 \<or> (length g = 1 \<and> odd (length cards))) (groups_of_two cards)
       \<and> list_all (\<lambda>c. card_lines c = Inr (the_rows c) \<and> length (the_rows c) = 7) cards
       \<and> group_block [r] =
           concat (map (\<lambda>k. COLOR_GRAY @ r ! k @ COLOR_RESET @ [newline]) [0..<7]) @ [newline]
       \<and> group_block [r, r'] =
           concat (map (\<lambda>k. COLOR_GRAY @ r ! k @ COLOR_RESET @ ''    ''
                              @ COLOR_GRAY @ r' ! k @ COLOR_RESET @ [newline]) [0..<7]) @ [newline]"
proof (intro conjI)
  from assms have "grid_loop cards 0 [] = ([] @ spec_grid (drop 0 cards), None)"
    by (rule grid_loop_eq)
  then show "DisplayCardsGrid cards
      = (concat (map group_block (map (map the_rows) (groups_of_two cards))), None)"
    by (simp add: DisplayCardsGrid_def spec_grid_def groups_of_two_map)
  show "concat (groups_of_two cards) = cards"
    by (rule concat_groups_of_two)
  show "list_all (\<lambda>g. length g = 2 \<or> (length g = 1 \<and> odd (length cards))) (groups_of_two cards)"
    by (rule groups_of_two_sizes)
  from assms show "list_all (\<lambda>c. card_lines c = Inr (the_rows c) \<and> length (the_rows c) = 7) cards"
    by (induction cards) (simp_all add: renders_rows length_the_rows)
  show "group_block [r] =
      concat (map (\<lambda>k. COLOR_GRAY @ r ! k @ COLOR_RESET @ [newline]) [0..<7]) @ [newline]"
    by (rule group_block_single)
  show "group_block [r, r'] =
      concat (map (\<lambda>k. COLOR_GRAY @ r ! k @ COLOR_RESET @ ''    ''
                         @ COLOR_GRAY @ r' ! k @ COLOR_RESET @ [newline]) [0..<7]) @ [newline]"
    by (rule group_block_pair)
qed

theorem grid_layout_of_rendering_cards_witness:
  "list_all renders [(''Math'', [''Manage and track your class activities.'']),
                     (''Art'', [''Manage and track your class activities.'']),
                     (''Biology'', [''Manage and track your class activities.''])]
   \<and> DisplayCardsGrid [(''Math'', [''Manage and track your class activities.'']),
                         (''Art'', [''Manage and track your class activities.'']),
                         (''Biology'', [''Manage and track your class activities.''])]
       = (group_block [the_rows (''Math'', [''Manage and track your class activities.'']),
                       the_rows (''Art'', [''Manage and track your class activities.''])]
          @ group_block [the_rows (''Biology'', [''Manage and track your class activities.''])],
          None)"
proof -
  have r: "list_all renders [(''Math'', [''Manage and track your class activities.'']),
                     (''Art'', [''Manage and track your class activities.'']),
                     (''Biology'', [''Manage and track your class activities.''])]"
    by (simp add: renders_short body_sized_def int_sized_def)
  from grid_layout_of_rendering_cards [OF r]
  have "DisplayCardsGrid [(''Math'', [''Manage and track your class activities.'']),
                         (''Art'', [''Manage and track your class activities.'']),
                         (''Biology'', [''Manage and track your class activities.''])]
       = (concat (map group_block (map (map the_rows) (groups_of_two
            [(''Math'', [''Manage and track your class activities.'']),
             (''Art'', [''Manage and track your class activities.'']),
             (''Biology'', [''Manage and track your class activities.''])]))), None)"
    by (rule conjunct1)
  with r show ?thesis by simp
qed

text \<open>
  The claim as stated, for every sequence of cards, fails on a card whose title has 49
  bytes: the renderer prints nothing and ends in \<^verbatim>\<open>std::length_error\<close>.
\<close>

theorem grid_throws_on_long_title:
  "DisplayCardsGrid [(replicate 49 CHR ''a'', [''Manage and track your class activities.''])]
     = ([], Some length_error)"
  by (simp add: DisplayCardsGrid_throws card_lines_long_title)

subsection \<open>The printable width of the rows\<close>

lemma plain_char_not_escape: "plain_char c \<Longrightarrow> c \<noteq> CHR 0x1B"
  by (auto simp: plain_char_def)

lemma plain_char_not_continuation:
  assumes "plain_char c"
  shows "\<not> continuation_byte c"
proof -
  from assms have "(of_char c :: nat) < 2 * 64"
    by (simp add: plain_char_def)
  then have "(of_char c :: nat) div 64 < 2"
    by (simp add: div_less_iff_less_mult)
  then show ?thesis
    by (simp add: continuation_byte_def)
qed

lemma plain_char_not_newline: "plain_char c \<Longrightarrow> c \<noteq> newline"
  by (auto simp: plain_char_def newline_def)

lemma strip_text_append:
  "CHR 0x1B \<notin> set s \<Longrightarrow> strip_escapes Text (s @ t) = s @ strip_escapes Text t"
  by (induction s) auto

lemma visible_append: "CHR 0x1B \<notin> set s \<Longrightarrow> visible (s @ t) = s @ visible t"
  by (simp add: visible_def strip_text_append)

lemma visible_plain: "CHR 0x1B \<notin> set s \<Longrightarrow> visible s = s"
  using visible_append [of s "[]"] by (simp add: visible_def)

lemma visible_codes:
  "visible (COLOR_BOLD @ t) = visible t"
  "visible (COLOR_RESET @ t) = visible t"
  "visible (COLOR_GRAY @ t) = visible t"
  by (simp_all add: visible_def COLOR_BOLD_def COLOR_RESET_def COLOR_GRAY_def)

lemma plain_text_no_escape: "plain_text s \<Longrightarrow> CHR 0x1B \<notin> set s"
  by (auto simp: plain_text_def list_all_iff dest: plain_char_not_escape)

lemma plain_text_no_newline: "plain_text s \<Longrightarrow> newline \<notin> set s"
  by (auto simp: plain_text_def list_all_iff dest: plain_char_not_newline)

lemma glyph_no_escape:
  "CHR 0x1B \<notin> set bar_vertical" "CHR 0x1B \<notin> set arc_top_left" "CHR 0x1B \<notin> set arc_top_right"
  "CHR 0x1B \<notin> set arc_bottom_left" "CHR 0x1B \<notin> set arc_bottom_right"
  by (simp_all add: bar_vertical_def arc_top_left_def arc_top_right_def arc_bottom_left_def
      arc_bottom_right_def)


lemma char_count_append: "char_count (s @ t) = char_count s + char_count t"
  by (simp add: char_count_def)

lemma char_count_glyph:
  "char_count bar_vertical = 1" "char_count arc_top_left = 1" "char_count arc_top_right = 1"
  "char_count arc_bottom_left = 1" "char_count arc_bottom_right = 1"
  by (simp_all add: char_count_def continuation_byte_def bar_vertical_def arc_top_left_def
      arc_top_right_def arc_bottom_left_def arc_bottom_right_def)

lemma char_count_plain:
  assumes "plain_text s"
  shows "char_count s = length s"
proof -
  have "filter (\<lambda>c. \<not> continuation_byte c) s = s"
  proof (rule filter_True, rule ballI)
    fix c
    assume "c \<in> set s"
    with assms have "plain_char c"
      by (simp add: plain_text_def list_all_iff)
    then show "\<not> continuation_byte c"
      by (rule plain_char_not_continuation)
  qed
  then show ?thesis by (simp add: char_count_def)
qed

lemma plain_replicate: "plain_char c \<Longrightarrow> plain_text (replicate n c)"
  by (simp add: plain_text_def list_all_iff)

lemma plain_fill: "plain_text (replicate n CHR '' '')" "plain_text (replicate n CHR ''_'')"
  by (simp_all add: plain_replicate plain_char_def)

lemma plain_append: "plain_text (s @ t) \<longleftrightarrow> plain_text s \<and> plain_text t"
  by (simp add: plain_text_def)

lemma plain_spec_shown: "plain_text line \<Longrightarrow> plain_text (spec_shown 50 line)"
  by (auto simp: spec_shown_def plain_text_def plain_char_def list_all_iff dest: in_set_takeD)

lemma printable_width_visible: "printable_width s = char_count (visible s)"
  by (simp add: printable_width_def)

lemma visible_top: "visible (spec_top 50) = spec_top 50"
  by (rule visible_plain) (simp add: spec_top_def glyph_no_escape)

lemma visible_bottom: "visible (spec_bottom 50) = spec_bottom 50"
  by (rule visible_plain) (simp add: spec_bottom_def glyph_no_escape)

lemma visible_blank: "visible (spec_blank 50) = spec_blank 50"
  by (rule visible_plain) (simp add: spec_blank_def glyph_no_escape)

lemma spec_shown_no_escape: "CHR 0x1B \<notin> set line \<Longrightarrow> CHR 0x1B \<notin> set (spec_shown 50 line)"
  by (auto simp: spec_shown_def dest: in_set_takeD)

lemma visible_body_row:
  "CHR 0x1B \<notin> set line \<Longrightarrow> visible (spec_body_row 50 line) = spec_body_row 50 line"
  by (rule visible_plain) (simp add: spec_body_row_def glyph_no_escape spec_shown_no_escape)

lemma plain_text_line_text: "plain_text s \<Longrightarrow> line_text s"
  by (simp add: line_text_def plain_text_no_escape plain_text_no_newline)

lemma visible_title:
  assumes "CHR 0x1B \<notin> set title"
  shows "visible (spec_title 50 title)
     = bar_vertical @ replicate ((48 - length title) div 2) CHR '' '' @ title
         @ replicate (48 - length title - (48 - length title) div 2) CHR '' '' @ bar_vertical"
proof -
  let ?l = "replicate ((48 - length title) div 2) CHR '' ''"
  let ?r = "replicate (48 - length title - (48 - length title) div 2) CHR '' ''"
  have "visible (spec_title 50 title)
      = visible ((bar_vertical @ ?l) @ COLOR_BOLD @ title @ COLOR_RESET @ ?r @ bar_vertical)"
    by (simp add: spec_title_def)
  also have "\<dots> = (bar_vertical @ ?l) @ visible (COLOR_BOLD @ title @ COLOR_RESET @ ?r @ bar_vertical)"
    by (rule visible_append) (simp add: glyph_no_escape)
  also have "visible (COLOR_BOLD @ title @ COLOR_RESET @ ?r @ bar_vertical)
      = visible (title @ COLOR_RESET @ ?r @ bar_vertical)"
    by (rule visible_codes)
  also have "\<dots> = title @ visible (COLOR_RESET @ ?r @ bar_vertical)"
    using assms by (rule visible_append)
  also have "visible (COLOR_RESET @ ?r @ bar_vertical) = visible (?r @ bar_vertical)"
    by (rule visible_codes)
  also have "\<dots> = ?r @ bar_vertical"
    by (rule visible_plain) (simp add: glyph_no_escape)
  finally show ?thesis by simp
qed

lemma width_top: "printable_width (spec_top 50) = 50"
  unfolding printable_width_visible visible_top
  by (simp add: spec_top_def char_count_append char_count_glyph char_count_plain plain_fill)

lemma width_bottom: "printable_width (spec_bottom 50) = 50"
  unfolding printable_width_visible visible_bottom
  by (simp add: spec_bottom_def char_count_append char_count_glyph char_count_plain plain_fill)

lemma width_blank: "printable_width (spec_blank 50) = 50"
  unfolding printable_width_visible visible_blank
  by (simp add: spec_blank_def char_count_append char_count_glyph char_count_plain plain_fill)

lemma width_title:
  "length title \<le> 48 \<Longrightarrow> plain_text title \<Longrightarrow> printable_width (spec_title 50 title) = 50"
  by (simp add: printable_width_visible visible_title plain_text_no_escape char_count_append
      char_count_glyph char_count_plain plain_fill)

lemma width_body_row:
  assumes "plain_text line"
  shows "printable_width (spec_body_row 50 line) = 50"
proof -
  have space: "plain_text '' ''"
    by (simp add: plain_text_def plain_char_def)
  from assms have "plain_text ('' '' @ spec_shown 50 line
      @ replicate (47 - length (spec_shown 50 line)) CHR '' '')"
    unfolding plain_append by (intro conjI space plain_spec_shown plain_fill)
  then have "char_count ('' '' @ spec_shown 50 line
      @ replicate (47 - length (spec_shown 50 line)) CHR '' '')
      = length ('' '' @ spec_shown 50 line
      @ replicate (47 - length (spec_shown 50 line)) CHR '' '')"
    by (rule char_count_plain)
  also have "\<dots> = 48"
    using length_spec_shown [of line] by simp
  finally have inner: "char_count ('' '' @ spec_shown 50 line
      @ replicate (47 - length (spec_shown 50 line)) CHR '' '') = 48" .
  have "printable_width (spec_body_row 50 line) = char_count (spec_body_row 50 line)"
    using assms by (simp add: printable_width_visible visible_body_row plain_text_no_escape)
  also have "\<dots> = char_count bar_vertical + char_count ('' '' @ spec_shown 50 line
      @ replicate (47 - length (spec_shown 50 line)) CHR '' '') + char_count bar_vertical"
    unfolding spec_body_row_def by (simp add: char_count_def)
  also have "\<dots> = 50"
    unfolding inner char_count_glyph by simp
  finally show ?thesis .
qed

lemma width_slot:
  "list_all plain_text body \<Longrightarrow> printable_width (spec_slot 50 body k) = 50"
  by (simp add: spec_slot_def width_blank width_body_row list_all_length)

subsection \<open>The dimensions of a card\<close>

text \<open>
  Claim C2, amended. Whenever the grid renderer composes a card, the card has exactly
  seven rows (top border, title row, blank row, three body-slot rows, bottom border). For
  a title of at most 48 bytes, title and body lines made of printable ASCII characters,
  and a body whose sizes fit an \<^verbatim>\<open>int\<close>, the card is composed and the printable width of
  every row, escape sequences left out, is 50.
\<close>

theorem card_has_seven_rows_of_width_50:
  "(\<forall>rows. card_lines (title, body) = Inr rows \<longrightarrow> length rows = 7)
   \<and> (length title \<le> 48 \<and> plain_text title \<and> body_sized body \<and> list_all plain_text body \<longrightarrow>
        (\<exists>rows. card_lines (title, body) = Inr rows \<and> length rows = 7
           \<and> list_all (\<lambda>row. printable_width row = 50) rows))"
proof (intro conjI allI impI)
  fix rows
  assume "card_lines (title, body) = Inr rows"
  then show "length rows = 7" by (rule length_card_lines)
next
  assume ok: "length title \<le> 48 \<and> plain_text title \<and> body_sized body \<and> list_all plain_text body"
  then have rows: "card_lines (title, body) = Inr (spec_card 50 (title, body))"
    by (simp add: card_lines_eq)
  from ok have "list_all (\<lambda>row. printable_width row = 50) (spec_card 50 (title, body))"
    by (simp add: spec_card_def width_top width_title width_blank width_slot width_bottom)
  with rows show "\<exists>rows. card_lines (title, body) = Inr rows \<and> length rows = 7
           \<and> list_all (\<lambda>row. printable_width row = 50) rows"
    by (simp add: spec_card_def)
qed

theorem card_has_seven_rows_of_width_50_witness:
  "length ''Math'' \<le> 48 \<and> plain_text ''Math''
   \<and> body_sized [''Manage and track your class activities.'']
   \<and> list_all plain_text [''Manage and track your class activities.'']
   \<and> (\<exists>rows. card_lines (''Math'', [''Manage and track your class activities.'']) = Inr rows
          \<and> length rows = 7 \<and> list_all (\<lambda>row. printable_width row = 50) rows)"
proof -
  have pre: "length ''Math'' \<le> 48 \<and> plain_text ''Math''
      \<and> body_sized [''Manage and track your class activities.'']
      \<and> list_all plain_text [''Manage and track your class activities.'']"
    by (simp add: plain_text_def plain_char_def body_sized_def int_sized_def)
  from card_has_seven_rows_of_width_50 [of "''Math''" "[''Manage and track your class activities.'']"] pre
  have "\<exists>rows. card_lines (''Math'', [''Manage and track your class activities.'']) = Inr rows
          \<and> length rows = 7 \<and> list_all (\<lambda>row. printable_width row = 50) rows"
    by blast
  with pre show ?thesis by blast
qed

text \<open>
  The claim as stated, for any title, fails in two ways. With a title of 49 bytes no
  card is composed: the left pad is negative and the renderer ends in
  \<^verbatim>\<open>std::length_error\<close>. With the title \<open>0xC3 0xA9\<close> (one accented letter in UTF-8:
  two bytes, one column) the pads are computed for two columns and the title row is 49
  columns wide.
\<close>

theorem card_throws_or_is_narrower:
  "card_lines (replicate 49 CHR ''a'', []) = Inl length_error
   \<and> title_line [CHR 0xC3, CHR 0xA9] = Inr (spec_title 50 [CHR 0xC3, CHR 0xA9])
   \<and> printable_width (spec_title 50 [CHR 0xC3, CHR 0xA9]) = 49"
proof (intro conjI)
  show "card_lines (replicate 49 CHR ''a'', []) = Inl length_error"
    by (simp add: card_lines_long_title)
  show "title_line [CHR 0xC3, CHR 0xA9] = Inr (spec_title 50 [CHR 0xC3, CHR 0xA9])"
    by (simp add: title_line_short)
  show "printable_width (spec_title 50 [CHR 0xC3, CHR 0xA9]) = 49"
    by (simp add: printable_width_visible visible_title)
      (simp add: char_count_def continuation_byte_def bar_vertical_def)
qed

subsection \<open>The single card and the card of the grid\<close>






















subsection \<open>The title row at any width\<close>

text \<open>
  \<^verbatim>\<open>DisplayCard\<close> takes the width as an \<^verbatim>\<open>int\<close> argument. For a width \<open>W\<close> below
  \<open>2 ^ 31\<close> and a title of at most \<open>W - 2\<close> bytes, the two \<^verbatim>\<open>size_t\<close> quotients
  \<open>(W - 2 - size) / 2\<close> and \<open>(W - 2 - size + 1) / 2\<close> are the halves of the gap, rounded
  down and up, and no fill constructor throws. The pad of a body row is the \<^verbatim>\<open>int\<close>
  the source stores, \<open>W - 3 - size\<close> cut to 32 bits, or nothing when that is negative.
\<close>

lemma sint_width:
  assumes "W < 2 ^ 31"
  shows "sint (of_nat W :: c_int) = int W"
proof -
  have "sint (of_nat W :: c_int) = signed_take_bit 31 (int W)"
    by (simp add: signed_of_nat)
  also from assms have "\<dots> = int W"
    by (intro stb31_id) simp_all
  finally show ?thesis .
qed

lemma sint_width_minus:
  assumes "W < 2 ^ 31"
  shows "sint ((of_nat W :: c_int) - 2) = int W - 2" "sint ((of_nat W :: c_int) - 3) = int W - 3"
proof -
  have "sint ((of_nat W :: c_int) - 2) = signed_take_bit 31 (sint (of_nat W :: c_int) - 2)"
    by (simp add: sint_word_ariths)
  also from assms have "\<dots> = int W - 2"
    unfolding sint_width [OF assms] by (intro stb31_id) simp_all
  finally show "sint ((of_nat W :: c_int) - 2) = int W - 2" .
  have "sint ((of_nat W :: c_int) - 3) = signed_take_bit 31 (sint (of_nat W :: c_int) - 3)"
    by (simp add: sint_word_ariths)
  also from assms have "\<dots> = int W - 3"
    unfolding sint_width [OF assms] by (intro stb31_id) simp_all
  finally show "sint ((of_nat W :: c_int) - 3) = int W - 3" .
qed

lemma fill_width:
  assumes "2 \<le> W" and "W < 2 ^ 31"
  shows "std_string_fill (int_to_size_t (of_nat W - 2)) ch = Inr (replicate (W - 2) ch)"
proof -
  from assms have "nat (int W - 2) = W - 2" by simp
  with assms show ?thesis
    unfolding fill_from_int sint_width_minus [OF assms(2)] by simp
qed

lemma fill_int_sized:
  "unat count = k \<Longrightarrow> k < 2 ^ 31 \<Longrightarrow> std_string_fill count ch = Inr (replicate k ch)"
  by (simp add: std_string_fill_def string_max_size_def)

lemma tb63_int_sized: "0 \<le> k \<Longrightarrow> k < 2 ^ 31 \<Longrightarrow> take_bit 63 k = k" for k :: int
  by (rule take_bit_int_eq_self) simp_all

lemma unat_title_left_width:
  assumes "length title + 2 \<le> W" and "W < 2 ^ 31"
  shows "unat ((int_to_size_t (of_nat W - 2) - size_of title) div 2) = (W - 2 - length title) div 2"
proof -
  have "uint (int_to_size_t (of_nat W - 2) - size_of title)
      = take_bit 64 (int W - 2 - int (length title))"
    unfolding uint_size_t_diff uint_int_to_size_t uint_size_of sint_width_minus [OF assms(2)]
      tb64_diff_right tb64_diff_left ..
  then have "uint ((int_to_size_t (of_nat W - 2) - size_of title) div 2)
      = take_bit 63 ((int W - 2 - int (length title)) div 2)"
    by (simp add: uint_div_distrib take_bit_half)
  also from assms have "\<dots> = (int W - 2 - int (length title)) div 2"
    by (intro tb63_int_sized) simp_all
  also from assms have "\<dots> = int ((W - 2 - length title) div 2)"
    by (simp add: of_nat_diff zdiv_int)
  finally show ?thesis
    by (simp add: unat_eq_nat_uint del: nat_uint_eq)
qed

lemma unat_title_right_width:
  assumes "length title + 2 \<le> W" and "W < 2 ^ 31"
  shows "unat ((int_to_size_t (of_nat W - 2) - size_of title + 1) div 2)
           = W - 2 - length title - (W - 2 - length title) div 2"
proof -
  have "uint (int_to_size_t (of_nat W - 2) - size_of title)
      = take_bit 64 (int W - 2 - int (length title))"
    unfolding uint_size_t_diff uint_int_to_size_t uint_size_of sint_width_minus [OF assms(2)]
      tb64_diff_right tb64_diff_left ..
  then have "uint (int_to_size_t (of_nat W - 2) - size_of title + 1)
      = take_bit 64 (int W - 2 - int (length title) + 1)"
    by (simp add: uint_word_arith_bintrs take_bit_eq_mod mod_add_left_eq)
  then have "uint ((int_to_size_t (of_nat W - 2) - size_of title + 1) div 2)
      = take_bit 63 ((int W - 2 - int (length title) + 1) div 2)"
    by (simp add: uint_div_distrib take_bit_half)
  also from assms have "\<dots> = (int W - 2 - int (length title) + 1) div 2"
    by (intro tb63_int_sized) simp_all
  also from assms have "\<dots> = int (W - 2 - length title - (W - 2 - length title) div 2)"
    by (simp add: of_nat_diff zdiv_int)
  finally show ?thesis
    by (simp add: unat_eq_nat_uint del: nat_uint_eq)
qed

lemma card_title_width:
  assumes "length title + 2 \<le> W" and "W < 2 ^ 31"
  shows "write_all (card_title (of_nat W) title @ rest) out
           = write_all rest (out @ spec_title W title @ [newline])"
proof -
  from assms have small: "(W - 2 - length title) div 2 < 2 ^ 31"
    "W - 2 - length title - (W - 2 - length title) div 2 < 2 ^ 31"
    by simp_all
  have l: "std_string_fill ((int_to_size_t (of_nat W - 2) - size_of title) div 2) CHR '' ''
      = Inr (replicate ((W - 2 - length title) div 2) CHR '' '')"
    by (rule fill_int_sized [OF unat_title_left_width [OF assms] small(1)])
  have r: "std_string_fill ((int_to_size_t (of_nat W - 2) - size_of title + 1) div 2) CHR '' ''
      = Inr (replicate (W - 2 - length title - (W - 2 - length title) div 2) CHR '' '')"
    by (rule fill_int_sized [OF unat_title_right_width [OF assms] small(2)])
  show ?thesis
    unfolding card_title_def l r by (simp add: spec_title_def)
qed

lemma sint_padding_width:
  assumes "W < 2 ^ 31"
  shows "sint (size_t_to_int (int_to_size_t (of_nat W - 3) - size_of line))
           = signed_take_bit 31 (int W - 3 - int (length line))"
proof -
  have u: "uint (int_to_size_t (of_nat W - 3) - size_of line)
      = take_bit 64 (int W - 3 - int (length line))"
    unfolding uint_size_t_diff uint_int_to_size_t uint_size_of sint_width_minus [OF assms]
      tb64_diff_right tb64_diff_left ..
  show ?thesis
    unfolding sint_size_t_to_int u stb_tb64 ..
qed

lemma card_content_width:
  assumes "W < 2 ^ 31"
  shows "card_content (of_nat W) line
     = [Inr (bar_vertical @ '' ''), Inr line,
        Inr (replicate (nat (signed_take_bit 31 (int W - 3 - int (length line)))) CHR '' ''),
        Inr (bar_vertical @ [newline])]"
proof -
  let ?padding = "size_t_to_int (int_to_size_t (of_nat W - 3) - size_of line)"
  define n where "n = signed_take_bit 31 (int W - 3 - int (length line))"
  have p: "sint ?padding = n"
    unfolding n_def using assms by (rule sint_padding_width)
  have "std_string_fill (int_to_size_t (if 0 < sint ?padding then ?padding else 0)) CHR '' ''
      = Inr (replicate (nat n) CHR '' '')"
  proof (cases "0 < n")
    case True
    with p show ?thesis by (simp add: fill_from_int)
  next
    case False
    with p show ?thesis by (simp add: fill_from_int)
  qed
  then show ?thesis
    unfolding card_content_def Let_def n_def by simp
qed

lemma card_contents_width:
  assumes "W < 2 ^ 31"
  shows "write_all (concat (map (card_content (of_nat W)) lines) @ rest) out
     = write_all rest (out @ concat (map (\<lambda>l. bar_vertical @ '' '' @ l
          @ replicate (nat (signed_take_bit 31 (int W - 3 - int (length l)))) CHR '' ''
          @ bar_vertical @ [newline]) lines))"
  by (induction lines arbitrary: out) (simp_all add: card_content_width [OF assms])

lemma DisplayCard_width:
  assumes "length title + 2 \<le> W" and "W < 2 ^ 31"
  shows "DisplayCard title lines (of_nat W)
     = (COLOR_GRAY @ spec_top W @ [newline] @ COLOR_RESET
          @ spec_title W title @ [newline]
          @ spec_blank W @ [newline]
          @ concat (map (\<lambda>l. bar_vertical @ '' '' @ l
              @ replicate (nat (signed_take_bit 31 (int W - 3 - int (length l)))) CHR '' ''
              @ bar_vertical @ [newline]) lines)
          @ COLOR_GRAY @ spec_bottom W @ [newline] @ COLOR_RESET, None)"
proof -
  from assms have w: "2 \<le> W" by simp
  show ?thesis
    unfolding DisplayCard_def fill_width [OF w assms(2)]
    by (simp add: card_title_width [OF assms] card_contents_width [OF assms(2)]
        spec_top_def spec_bottom_def spec_blank_def)
qed

lemma card_lines_title_row:
  assumes "length title \<le> 48" and "body_sized body"
  shows "\<exists>rows. card_lines (title, body) = Inr rows \<and> rows ! 1 = spec_title 50 title"
  using assms by (simp add: card_lines_eq spec_card_def)

text \<open>
  Claim C7. For a width \<open>W\<close> (below \<open>2 ^ 31\<close>, the range of the \<^verbatim>\<open>int\<close> parameter)
  and a title of at most \<open>W - 2\<close> bytes, \<^verbatim>\<open>DisplayCard\<close> prints, after the top border,
  the title row: the left border glyph, the left pad of spaces, the title between the
  bold and the reset code, the right pad of spaces and the right border glyph; then the
  blank row, the body rows and the bottom border. The two pads and the title are \<open>W - 2\<close>
  bytes together; the right pad is one space longer than the left one when
  \<open>W - 2 - length title\<close> is odd, and as long when it is even. At \<open>W = 50\<close>, the
  width of the grid renderer, the same row is the title row the grid renderer composes,
  and row 1 of the card it composes for every body whose sizes fit an \<^verbatim>\<open>int\<close>; the
  title \<open>Math\<close> gets 22 spaces on each side.
\<close>

theorem title_row_centred:
  assumes "length title + 2 \<le> W" and "W < 2 ^ 31"
  shows "\<exists>left right.
      DisplayCard title lines (of_nat W)
        = (COLOR_GRAY @ spec_top W @ [newline] @ COLOR_RESET
             @ bar_vertical @ replicate left CHR '' '' @ COLOR_BOLD @ title @ COLOR_RESET
             @ replicate right CHR '' '' @ bar_vertical @ [newline]
             @ spec_blank W @ [newline]
             @ concat (map (\<lambda>l. bar_vertical @ '' '' @ l
                 @ replicate (nat (signed_take_bit 31 (int W - 3 - int (length l)))) CHR '' ''
                 @ bar_vertical @ [newline]) lines)
             @ COLOR_GRAY @ spec_bottom W @ [newline] @ COLOR_RESET, None)
    \<and> left + length title + right = W - 2
    \<and> (odd (W - 2 - length title) \<longrightarrow> right = left + 1)
    \<and> (even (W - 2 - length title) \<longrightarrow> right = left)
    \<and> (W = 50 \<longrightarrow>
          title_line title
            = Inr (bar_vertical @ replicate left CHR '' '' @ COLOR_BOLD @ title @ COLOR_RESET
                    @ replicate right CHR '' '' @ bar_vertical)
        \<and> (\<forall>body. body_sized body \<longrightarrow>
              (\<exists>rows. card_lines (title, body) = Inr rows
                 \<and> rows ! 1 = bar_vertical @ replicate left CHR '' '' @ COLOR_BOLD @ title
                      @ COLOR_RESET @ replicate right CHR '' '' @ bar_vertical))
        \<and> (\<forall>body rows. card_lines (title, body) = Inr rows \<longrightarrow>
              rows ! 1 = bar_vertical @ replicate left CHR '' '' @ COLOR_BOLD @ title
                   @ COLOR_RESET @ replicate right CHR '' '' @ bar_vertical)
        \<and> (title = ''Math'' \<longrightarrow> left = 22 \<and> right = 22))"
proof -
  define left where "left = (W - 2 - length title) div 2"
  define right where "right = W - 2 - length title - (W - 2 - length title) div 2"
  let ?row = "bar_vertical @ replicate left CHR '' '' @ COLOR_BOLD @ title @ COLOR_RESET
                @ replicate right CHR '' '' @ bar_vertical"
  have row: "spec_title W title = ?row"
    by (simp add: spec_title_def left_def right_def)
  have single: "DisplayCard title lines (of_nat W)
        = (COLOR_GRAY @ spec_top W @ [newline] @ COLOR_RESET
             @ bar_vertical @ replicate left CHR '' '' @ COLOR_BOLD @ title @ COLOR_RESET
             @ replicate right CHR '' '' @ bar_vertical @ [newline]
             @ spec_blank W @ [newline]
             @ concat (map (\<lambda>l. bar_vertical @ '' '' @ l
                 @ replicate (nat (signed_take_bit 31 (int W - 3 - int (length l)))) CHR '' ''
                 @ bar_vertical @ [newline]) lines)
             @ COLOR_GRAY @ spec_bottom W @ [newline] @ COLOR_RESET, None)"
    unfolding DisplayCard_width [OF assms] row by simp
  have total: "left + length title + right = W - 2"
    using assms by (simp add: left_def right_def)
  have uneven: "right = left + 1" if "odd (W - 2 - length title)"
    using that by (elim oddE) (simp add: left_def right_def)
  have even: "right = left" if "even (W - 2 - length title)"
    using that by (elim evenE) (simp add: left_def right_def)
  have grid: "title_line title = Inr ?row
        \<and> (\<forall>body. body_sized body \<longrightarrow>
              (\<exists>rows. card_lines (title, body) = Inr rows \<and> rows ! 1 = ?row))
        \<and> (\<forall>body rows. card_lines (title, body) = Inr rows \<longrightarrow> rows ! 1 = ?row)
        \<and> (title = ''Math'' \<longrightarrow> left = 22 \<and> right = 22)" if W: "W = 50"
  proof (intro conjI allI impI)
    from assms W have short: "length title \<le> 48" by simp
    from row W have row50: "spec_title 50 title = ?row" by simp
    show line: "title_line title = Inr ?row"
      unfolding title_line_short [OF short] row50 by (rule refl)
    show "\<exists>rows. card_lines (title, body) = Inr rows \<and> rows ! 1 = ?row" if "body_sized body" for body
      using card_lines_title_row [OF short that] unfolding row50 .
    show "rows ! 1 = ?row" if "card_lines (title, body) = Inr rows" for body rows
      using card_lines_rows [OF that] line by auto
    show "left = 22" if "title = ''Math''"
      using that W by (simp add: left_def)
    show "right = 22" if "title = ''Math''"
      using that W by (simp add: right_def)
  qed
  from single total uneven even grid show ?thesis
    by blast
qed

theorem title_row_centred_witness:
  "length ''Art'' + 2 \<le> (10 :: nat) \<and> (10 :: nat) < 2 ^ 31
   \<and> DisplayCard ''Art'' [] 10
       = (COLOR_GRAY @ spec_top 10 @ [newline] @ COLOR_RESET
            @ bar_vertical @ ''  '' @ COLOR_BOLD @ ''Art'' @ COLOR_RESET @ ''   ''
            @ bar_vertical @ [newline]
            @ spec_blank 10 @ [newline]
            @ COLOR_GRAY @ spec_bottom 10 @ [newline] @ COLOR_RESET, None)
   \<and> length ''Math'' + 2 \<le> (50 :: nat) \<and> (50 :: nat) < 2 ^ 31
   \<and> title_line ''Math''
       = Inr (bar_vertical @ replicate 22 CHR '' '' @ COLOR_BOLD @ ''Math'' @ COLOR_RESET
               @ replicate 22 CHR '' '' @ bar_vertical)
   \<and> body_sized [''Manage and track your class activities.'']
   \<and> (\<exists>rows. card_lines (''Math'', [''Manage and track your class activities.'']) = Inr rows
        \<and> rows ! 1 = bar_vertical @ replicate 22 CHR '' '' @ COLOR_BOLD @ ''Math'' @ COLOR_RESET
               @ replicate 22 CHR '' '' @ bar_vertical)"
proof -
  have a: "length ''Art'' + 2 \<le> (10 :: nat)" "(10 :: nat) < 2 ^ 31"
    by simp_all
  have m: "length ''Math'' + 2 \<le> (50 :: nat)" "(50 :: nat) < 2 ^ 31"
    by simp_all
  have b: "body_sized [''Manage and track your class activities.'']"
    by (simp add: body_sized_def int_sized_def)
  from title_row_centred [OF a, of "[]"] obtain left right where
    art: "DisplayCard ''Art'' [] (of_nat 10)
        = (COLOR_GRAY @ spec_top 10 @ [newline] @ COLOR_RESET
             @ bar_vertical @ replicate left CHR '' '' @ COLOR_BOLD @ ''Art'' @ COLOR_RESET
             @ replicate right CHR '' '' @ bar_vertical @ [newline]
             @ spec_blank 10 @ [newline]
             @ concat (map (\<lambda>l. bar_vertical @ '' '' @ l
                 @ replicate (nat (signed_take_bit 31 (int 10 - 3 - int (length l)))) CHR '' ''
                 @ bar_vertical @ [newline]) [])
             @ COLOR_GRAY @ spec_bottom 10 @ [newline] @ COLOR_RESET, None)"
    and total: "left + length ''Art'' + right = 10 - 2"
    and uneven: "odd (10 - 2 - length ''Art'') \<longrightarrow> right = left + 1"
    by blast
  from uneven have "right = left + 1" by simp
  with total have lr: "left = 2" "right = 3" by simp_all
  have pads: "replicate 2 CHR '' '' = ''  ''" "replicate 3 CHR '' '' = ''   ''"
    by (simp_all add: numeral_2_eq_2 numeral_3_eq_3)
  from art have art': "DisplayCard ''Art'' [] 10
       = (COLOR_GRAY @ spec_top 10 @ [newline] @ COLOR_RESET
            @ bar_vertical @ ''  '' @ COLOR_BOLD @ ''Art'' @ COLOR_RESET @ ''   ''
            @ bar_vertical @ [newline]
            @ spec_blank 10 @ [newline]
            @ COLOR_GRAY @ spec_bottom 10 @ [newline] @ COLOR_RESET, None)"
    unfolding lr pads by simp
  from title_row_centred [OF m, of "[]"] obtain left right where
    line: "title_line ''Math''
            = Inr (bar_vertical @ replicate left CHR '' '' @ COLOR_BOLD @ ''Math'' @ COLOR_RESET
                    @ replicate right CHR '' '' @ bar_vertical)"
    and card: "\<forall>body. body_sized body \<longrightarrow>
              (\<exists>rows. card_lines (''Math'', body) = Inr rows
                 \<and> rows ! 1 = bar_vertical @ replicate left CHR '' '' @ COLOR_BOLD @ ''Math''
                      @ COLOR_RESET @ replicate right CHR '' '' @ bar_vertical)"
    and math: "left = 22 \<and> right = 22"
    by blast
  from line math have line': "title_line ''Math''
       = Inr (bar_vertical @ replicate 22 CHR '' '' @ COLOR_BOLD @ ''Math'' @ COLOR_RESET
               @ replicate 22 CHR '' '' @ bar_vertical)"
    by simp
  from card b math have card': "\<exists>rows. card_lines (''Math'', [''Manage and track your class activities.'']) = Inr rows
        \<and> rows ! 1 = bar_vertical @ replicate 22 CHR '' '' @ COLOR_BOLD @ ''Math'' @ COLOR_RESET
               @ replicate 22 CHR '' '' @ bar_vertical"
    by simp
  from a m b art' line' card' show ?thesis by blast
qed

subsection \<open>Body rows\<close>

text \<open>
  The loop over the body slots reads lines 0, 1 and 2 only: a card is composed as soon
  as the title has at most 48 bytes, the number of body lines fits an \<^verbatim>\<open>int\<close> and so
  does the size of each of the first three lines, and it is the card of the first three
  lines.
\<close>

lemma first_three_sized:
  assumes "list_all int_sized (take 3 body)" and "ln < 3" and "ln < length body"
  shows "int_sized (body ! ln)"
proof -
  from assms(2,3) have "ln < length (take 3 body)" by simp
  with assms(1) have "int_sized (take 3 body ! ln)"
    by (simp add: list_all_length)
  with assms(2) show ?thesis by simp
qed

lemma content_line_first_three:
  assumes "int_sized body" and "list_all int_sized (take 3 body)" and "ln < 3"
  shows "content_line body ln = Inr (spec_slot 50 body ln)"
proof (cases "ln < length body")
  case True
  with assms(2,3) have "int_sized (body ! ln)"
    by (rule first_three_sized)
  with assms(1) True show ?thesis
    by (simp add: content_line_at spec_slot_def)
next
  case False
  with assms(1) show ?thesis
    by (simp add: content_line_beyond spec_slot_def)
qed

lemma content_loop_first_three:
  assumes "int_sized body" and "list_all int_sized (take 3 body)"
  shows "content_loop body 0 [] = Inr [spec_slot 50 body 0, spec_slot 50 body 1, spec_slot 50 body 2]"
proof -
  have line: "content_line body 0 = Inr (spec_slot 50 body 0)"
    "content_line body (Suc 0) = Inr (spec_slot 50 body (Suc 0))"
    "content_line body (Suc (Suc 0)) = Inr (spec_slot 50 body (Suc (Suc 0)))"
    using assms by (simp_all add: content_line_first_three)
  have "content_loop body (Suc (Suc (Suc 0))) acc = Inr acc" for acc
    by (subst content_loop.simps) (simp add: contentLines_def)
  then have "content_loop body (Suc (Suc 0)) acc = Inr (acc @ [spec_slot 50 body (Suc (Suc 0))])" for acc
    by (subst content_loop.simps) (simp add: contentLines_def line)
  then have "content_loop body (Suc 0) acc
      = Inr (acc @ [spec_slot 50 body (Suc 0), spec_slot 50 body (Suc (Suc 0))])" for acc
    by (subst content_loop.simps) (simp add: contentLines_def line)
  then have "content_loop body 0 []
      = Inr [spec_slot 50 body 0, spec_slot 50 body (Suc 0), spec_slot 50 body (Suc (Suc 0))]"
    by (subst content_loop.simps) (simp add: contentLines_def line)
  then show ?thesis by (simp add: numeral_2_eq_2)
qed

lemma card_lines_first_three:
  assumes "length title \<le> 48" and "int_sized body" and "list_all int_sized (take 3 body)"
  shows "card_lines (title, body) = Inr (spec_card 50 (title, body))"
  using assms
  by (simp add: card_lines_def top_line_eq title_line_short blank_line_eq content_loop_first_three
      bottom_line_eq spec_card_def)

lemma spec_slot_take: "k < 3 \<Longrightarrow> spec_slot W (take 3 body) k = spec_slot W body k"
  by (simp add: spec_slot_def)

lemma spec_card_take: "spec_card W (title, take 3 body) = spec_card W (title, body)"
  by (simp add: spec_card_def spec_slot_take)

lemma spec_card_body_row:
  assumes "ln < 3" and "ln < length body"
  shows "spec_card 50 (title, body) ! (3 + ln) = spec_body_row 50 (body ! ln)"
proof -
  from assms(1) consider "ln = 0" | "ln = 1" | "ln = 2" by linarith
  then show ?thesis
    using assms(2) by cases (simp_all add: spec_card_def spec_slot_def)
qed

lemma DisplayCardsGrid_single:
  assumes "card_lines c = Inr rows"
  shows "DisplayCardsGrid [c]
     = (concat (map (\<lambda>k. COLOR_GRAY @ rows ! k @ COLOR_RESET @ [newline]) [0..<7]) @ [newline], None)"
proof -
  from assms have rows: "the_rows c = rows"
    by (simp add: the_rows_def)
  from assms have "list_all renders [c]"
    by (simp add: renders_def)
  then have "grid_loop [c] 0 [] = ([] @ spec_grid (drop 0 [c]), None)"
    by (rule grid_loop_eq)
  then have "DisplayCardsGrid [c] = (group_block [rows], None)"
    by (simp add: DisplayCardsGrid_def spec_grid_def rows)
  then show ?thesis
    unfolding group_block_single .
qed

lemma printable_width_plain: "plain_text s \<Longrightarrow> printable_width s = length s"
  by (simp add: printable_width_visible visible_plain plain_text_no_escape char_count_plain)

lemma plain_take: "plain_text s \<Longrightarrow> plain_text (take n s)"
  by (auto simp: plain_text_def list_all_iff dest: in_set_takeD)

lemma plain_dots: "plain_text ''...''"
  by (simp add: plain_text_def plain_char_def)

text \<open>
  Claim C5, amended. In the grid renderer, for a card with a title of at most 48 bytes
  and a body whose number of lines and whose first three lines fit an \<^verbatim>\<open>int\<close>, the card
  is composed, it is the card composed for the first three body lines alone, and a grid
  of this one card prints its seven rows. For each of the first three body lines, row
  \<open>3 + ln\<close> of the card is: when the line is longer than 47 bytes (\<open>W - 3\<close>), its first
  44 bytes (\<open>W - 6\<close>) followed by three dots, 47 bytes between the leading space and
  the right border; when the line has at most 47 bytes, the line as it is, followed by
  spaces up to 47 bytes. Lengths are counted in bytes, as the code counts them; for a
  line of printable ASCII characters the bytes are columns: the content is 47 columns
  wide and the row 50.
\<close>

theorem body_line_truncated_or_padded:
  assumes "length title \<le> 48" and "int_sized body" and "list_all int_sized (take 3 body)"
    and "ln < 3" and "ln < length body"
  shows "\<exists>rows.
      card_lines (title, body) = Inr rows
    \<and> card_lines (title, take 3 body) = Inr rows
    \<and> DisplayCardsGrid [(title, body)]
        = (concat (map (\<lambda>k. COLOR_GRAY @ rows ! k @ COLOR_RESET @ [newline]) [0..<7])
             @ [newline], None)
    \<and> (47 < length (body ! ln) \<longrightarrow>
          rows ! (3 + ln)
            = bar_vertical @ '' '' @ take 44 (body ! ln) @ ''...'' @ bar_vertical
        \<and> length (take 44 (body ! ln) @ ''...'') = 47
        \<and> (plain_text (body ! ln) \<longrightarrow>
              printable_width (take 44 (body ! ln) @ ''...'') = 47
            \<and> printable_width (rows ! (3 + ln)) = 50))
    \<and> (length (body ! ln) \<le> 47 \<longrightarrow>
          rows ! (3 + ln)
            = bar_vertical @ '' '' @ body ! ln
                @ replicate (47 - length (body ! ln)) CHR '' '' @ bar_vertical
        \<and> length (body ! ln @ replicate (47 - length (body ! ln)) CHR '' '') = 47
        \<and> (plain_text (body ! ln) \<longrightarrow>
              printable_width (body ! ln @ replicate (47 - length (body ! ln)) CHR '' '') = 47
            \<and> printable_width (rows ! (3 + ln)) = 50))"
proof -
  let ?rows = "spec_card 50 (title, body)"
  let ?line = "body ! ln"
  have card: "card_lines (title, body) = Inr ?rows"
    using assms(1-3) by (rule card_lines_first_three)
  have "int_sized (take 3 body)"
    by (simp add: int_sized_def)
  with assms(1) have "card_lines (title, take 3 body) = Inr (spec_card 50 (title, take 3 body))"
    by (rule card_lines_first_three) (use assms(3) in simp)
  then have first: "card_lines (title, take 3 body) = Inr ?rows"
    unfolding spec_card_take .
  have grid: "DisplayCardsGrid [(title, body)]
        = (concat (map (\<lambda>k. COLOR_GRAY @ ?rows ! k @ COLOR_RESET @ [newline]) [0..<7])
             @ [newline], None)"
    using card by (rule DisplayCardsGrid_single)
  have row: "?rows ! (3 + ln) = spec_body_row 50 ?line"
    using assms(4,5) by (rule spec_card_body_row)
  have wide: "printable_width (?rows ! (3 + ln)) = 50" if "plain_text ?line"
    unfolding row using that by (rule width_body_row)
  have long: "?rows ! (3 + ln) = bar_vertical @ '' '' @ take 44 ?line @ ''...'' @ bar_vertical
      \<and> length (take 44 ?line @ ''...'') = 47
      \<and> (plain_text ?line \<longrightarrow> printable_width (take 44 ?line @ ''...'') = 47
            \<and> printable_width (?rows ! (3 + ln)) = 50)" if l: "47 < length ?line"
  proof (intro conjI impI)
    from l show "?rows ! (3 + ln) = bar_vertical @ '' '' @ take 44 ?line @ ''...'' @ bar_vertical"
      unfolding row by (simp add: spec_body_row_def spec_shown_def)
    from l show len: "length (take 44 ?line @ ''...'') = 47"
      by simp
    assume p: "plain_text ?line"
    then have "plain_text (take 44 ?line @ ''...'')"
      unfolding plain_append by (intro conjI plain_take plain_dots)
    then have "printable_width (take 44 ?line @ ''...'') = length (take 44 ?line @ ''...'')"
      by (rule printable_width_plain)
    then show "printable_width (take 44 ?line @ ''...'') = 47"
      unfolding len .
    from p show "printable_width (?rows ! (3 + ln)) = 50"
      by (rule wide)
  qed
  have short: "?rows ! (3 + ln) = bar_vertical @ '' '' @ ?line
          @ replicate (47 - length ?line) CHR '' '' @ bar_vertical
      \<and> length (?line @ replicate (47 - length ?line) CHR '' '') = 47
      \<and> (plain_text ?line \<longrightarrow>
            printable_width (?line @ replicate (47 - length ?line) CHR '' '') = 47
          \<and> printable_width (?rows ! (3 + ln)) = 50)" if s: "length ?line \<le> 47"
  proof (intro conjI impI)
    from s show "?rows ! (3 + ln) = bar_vertical @ '' '' @ ?line
          @ replicate (47 - length ?line) CHR '' '' @ bar_vertical"
      unfolding row by (simp add: spec_body_row_def spec_shown_def)
    from s show len: "length (?line @ replicate (47 - length ?line) CHR '' '') = 47"
      by simp
    assume p: "plain_text ?line"
    then have "plain_text (?line @ replicate (47 - length ?line) CHR '' '')"
      unfolding plain_append by (intro conjI plain_fill)
    then have "printable_width (?line @ replicate (47 - length ?line) CHR '' '')
        = length (?line @ replicate (47 - length ?line) CHR '' '')"
      by (rule printable_width_plain)
    then show "printable_width (?line @ replicate (47 - length ?line) CHR '' '') = 47"
      unfolding len .
    from p show "printable_width (?rows ! (3 + ln)) = 50"
      by (rule wide)
  qed
  from card first grid long short show ?thesis
    by blast
qed


theorem body_line_truncated_or_padded_witness:
  "length ''Math'' \<le> 48
   \<and> int_sized [''Algebra'', replicate 60 CHR ''y'', ''Geometry'', ''Logic'']
   \<and> list_all int_sized (take 3 [''Algebra'', replicate 60 CHR ''y'', ''Geometry'', ''Logic''])
   \<and> 47 < length ([''Algebra'', replicate 60 CHR ''y'', ''Geometry'', ''Logic''] ! 1)
   \<and> plain_text ([''Algebra'', replicate 60 CHR ''y'', ''Geometry'', ''Logic''] ! 1)
   \<and> length ([''Algebra'', replicate 60 CHR ''y'', ''Geometry'', ''Logic''] ! 0) \<le> 47
   \<and> (\<exists>rows.
         card_lines (''Math'', [''Algebra'', replicate 60 CHR ''y'', ''Geometry'', ''Logic''])
           = Inr rows
       \<and> card_lines (''Math'', [''Algebra'', replicate 60 CHR ''y'', ''Geometry'']) = Inr rows
       \<and> rows ! 4 = bar_vertical @ '' '' @ replicate 44 CHR ''y'' @ ''...'' @ bar_vertical
       \<and> printable_width (rows ! 4) = 50
       \<and> rows ! 3 = bar_vertical @ '' '' @ ''Algebra'' @ replicate 40 CHR '' '' @ bar_vertical)"
proof -
  let ?body = "[''Algebra'', replicate 60 CHR ''y'', ''Geometry'', ''Logic'']"
  have t: "length ''Math'' \<le> 48"
    by simp
  have b: "int_sized ?body" "list_all int_sized (take 3 ?body)"
    by (simp_all add: int_sized_def)
  have long: "47 < length (?body ! 1)"
    by simp
  have plain: "plain_text (?body ! 1)"
    by (simp add: plain_replicate plain_char_def)
  have short: "length (?body ! 0) \<le> 47"
    by simp
  from body_line_truncated_or_padded [OF t b, of 1] long plain
  obtain rows where rows: "card_lines (''Math'', ?body) = Inr rows"
    and first: "card_lines (''Math'', take 3 ?body) = Inr rows"
    and row4: "rows ! (3 + 1) = bar_vertical @ '' '' @ take 44 (?body ! 1) @ ''...'' @ bar_vertical"
    and wide: "printable_width (rows ! (3 + 1)) = 50"
    by auto
  from body_line_truncated_or_padded [OF t b, of 0] short
  obtain rows' where rows': "card_lines (''Math'', ?body) = Inr rows'"
    and row3: "rows' ! (3 + 0) = bar_vertical @ '' '' @ ?body ! 0
         @ replicate (47 - length (?body ! 0)) CHR '' '' @ bar_vertical"
    by auto
  from rows rows' have same: "rows' = rows"
    by simp
  from first have first': "card_lines (''Math'', [''Algebra'', replicate 60 CHR ''y'', ''Geometry'']) = Inr rows"
    by simp
  from row4 have row4': "rows ! 4 = bar_vertical @ '' '' @ replicate 44 CHR ''y'' @ ''...'' @ bar_vertical"
    by simp
  from wide have wide': "printable_width (rows ! 4) = 50"
    by simp
  from row3 have row3': "rows ! 3 = bar_vertical @ '' '' @ ''Algebra'' @ replicate 40 CHR '' '' @ bar_vertical"
    unfolding same by simp
  from t b long plain short rows first' row4' wide' row3' show ?thesis
    by blast
qed

lemma char_count_accent: "char_count ([CHR 0xC3, CHR 0xA9] @ s) = 1 + char_count s"
  by (simp add: char_count_def continuation_byte_def)

lemma char_count_fill: "char_count (replicate n CHR ''y'') = n" "char_count (replicate n CHR '' '') = n"
  by (simp_all add: char_count_plain plain_replicate plain_char_def)

text \<open>
  The claim as stated, in characters and columns, fails on a line that is not ASCII. The
  accented letter \<open>0xC3 0xA9\<close> is one character of two bytes. Followed by 47 letters it
  makes a line of 48 characters: the renderer keeps its first 44 bytes, which are 43
  characters, and the content with the three dots is 46 columns wide, not 47. Alone it
  makes a line of one character: the renderer pads it with 45 spaces, to 46 columns, and
  the row is 49 columns wide.
\<close>

theorem body_line_measured_in_bytes:
  "char_count ([CHR 0xC3, CHR 0xA9] @ replicate 47 CHR ''y'') = 48
   \<and> card_lines (''Math'', [[CHR 0xC3, CHR 0xA9] @ replicate 47 CHR ''y''])
       = Inr [spec_top 50, spec_title 50 ''Math'', spec_blank 50,
              bar_vertical @ '' '' @ [CHR 0xC3, CHR 0xA9] @ replicate 42 CHR ''y'' @ ''...''
                @ bar_vertical,
              spec_blank 50, spec_blank 50, spec_bottom 50]
   \<and> char_count ([CHR 0xC3, CHR 0xA9] @ replicate 42 CHR ''y'') = 43
   \<and> printable_width ([CHR 0xC3, CHR 0xA9] @ replicate 42 CHR ''y'' @ ''...'') = 46
   \<and> char_count [CHR 0xC3, CHR 0xA9] = 1
   \<and> card_lines (''Math'', [[CHR 0xC3, CHR 0xA9]])
       = Inr [spec_top 50, spec_title 50 ''Math'', spec_blank 50,
              bar_vertical @ '' '' @ [CHR 0xC3, CHR 0xA9] @ replicate 45 CHR '' ''
                @ bar_vertical,
              spec_blank 50, spec_blank 50, spec_bottom 50]
   \<and> printable_width ([CHR 0xC3, CHR 0xA9] @ replicate 45 CHR '' '') = 46
   \<and> printable_width (bar_vertical @ '' '' @ [CHR 0xC3, CHR 0xA9] @ replicate 45 CHR '' ''
                          @ bar_vertical) = 49"
proof (intro conjI)
  show "char_count ([CHR 0xC3, CHR 0xA9] @ replicate 47 CHR ''y'') = 48"
    unfolding char_count_accent char_count_fill by simp
  show "card_lines (''Math'', [[CHR 0xC3, CHR 0xA9] @ replicate 47 CHR ''y''])
       = Inr [spec_top 50, spec_title 50 ''Math'', spec_blank 50,
              bar_vertical @ '' '' @ [CHR 0xC3, CHR 0xA9] @ replicate 42 CHR ''y'' @ ''...''
                @ bar_vertical,
              spec_blank 50, spec_blank 50, spec_bottom 50]"
    by (simp add: card_lines_eq body_sized_def int_sized_def spec_card_def spec_slot_def
        spec_body_row_def spec_shown_def)
  show "char_count ([CHR 0xC3, CHR 0xA9] @ replicate 42 CHR ''y'') = 43"
    unfolding char_count_accent char_count_fill by simp
  have "CHR 0x1B \<notin> set ([CHR 0xC3, CHR 0xA9] @ replicate 42 CHR ''y'' @ ''...'')"
    by simp
  then have "visible ([CHR 0xC3, CHR 0xA9] @ replicate 42 CHR ''y'' @ ''...'')
      = [CHR 0xC3, CHR 0xA9] @ replicate 42 CHR ''y'' @ ''...''"
    by (rule visible_plain)
  then have "printable_width ([CHR 0xC3, CHR 0xA9] @ replicate 42 CHR ''y'' @ ''...'')
      = char_count ([CHR 0xC3, CHR 0xA9] @ replicate 42 CHR ''y'' @ ''...'')"
    unfolding printable_width_visible by (rule arg_cong)
  also have "\<dots> = 46"
    unfolding char_count_append char_count_fill by (simp add: char_count_def continuation_byte_def)
  finally show "printable_width ([CHR 0xC3, CHR 0xA9] @ replicate 42 CHR ''y'' @ ''...'') = 46" .
  show "char_count [CHR 0xC3, CHR 0xA9] = 1"
    by (simp add: char_count_def continuation_byte_def)
  show "card_lines (''Math'', [[CHR 0xC3, CHR 0xA9]])
       = Inr [spec_top 50, spec_title 50 ''Math'', spec_blank 50,
              bar_vertical @ '' '' @ [CHR 0xC3, CHR 0xA9] @ replicate 45 CHR '' ''
                @ bar_vertical,
              spec_blank 50, spec_blank 50, spec_bottom 50]"
    by (simp add: card_lines_eq body_sized_def int_sized_def spec_card_def spec_slot_def
        spec_body_row_def spec_shown_def)
  have "CHR 0x1B \<notin> set ([CHR 0xC3, CHR 0xA9] @ replicate 45 CHR '' '')"
    by simp
  then have "visible ([CHR 0xC3, CHR 0xA9] @ replicate 45 CHR '' '')
      = [CHR 0xC3, CHR 0xA9] @ replicate 45 CHR '' ''"
    by (rule visible_plain)
  then have "printable_width ([CHR 0xC3, CHR 0xA9] @ replicate 45 CHR '' '')
      = char_count ([CHR 0xC3, CHR 0xA9] @ replicate 45 CHR '' '')"
    unfolding printable_width_visible by (rule arg_cong)
  also have "\<dots> = 46"
    unfolding char_count_accent char_count_fill by simp
  finally show "printable_width ([CHR 0xC3, CHR 0xA9] @ replicate 45 CHR '' '') = 46" .
  have "CHR 0x1B \<notin> set (bar_vertical @ '' '' @ [CHR 0xC3, CHR 0xA9] @ replicate 45 CHR '' ''
      @ bar_vertical)"
    by (simp add: glyph_no_escape)
  then have "visible (bar_vertical @ '' '' @ [CHR 0xC3, CHR 0xA9] @ replicate 45 CHR '' ''
      @ bar_vertical)
      = bar_vertical @ '' '' @ [CHR 0xC3, CHR 0xA9] @ replicate 45 CHR '' '' @ bar_vertical"
    by (rule visible_plain)
  then have "printable_width (bar_vertical @ '' '' @ [CHR 0xC3, CHR 0xA9]
      @ replicate 45 CHR '' '' @ bar_vertical)
      = char_count (bar_vertical @ '' '' @ [CHR 0xC3, CHR 0xA9] @ replicate 45 CHR '' ''
          @ bar_vertical)"
    unfolding printable_width_visible by (rule arg_cong)
  also have "\<dots> = 49"
    unfolding char_count_append char_count_fill char_count_glyph
    by (simp add: char_count_def continuation_byte_def)
  finally show "printable_width (bar_vertical @ '' '' @ [CHR 0xC3, CHR 0xA9]
      @ replicate 45 CHR '' '' @ bar_vertical) = 49" .
qed

end
